theory Spec2Isabelle
  imports Complex_Main
begin

section \<open>Layer builder (\<^verbatim>\<open>src/layers.js\<close>)\<close>

text \<open>
  The script computes with JavaScript numbers. They are modelled as real numbers: the
  rounding of IEEE doubles, infinities and NaN are outside this development. The three
  constants of the script (\<^verbatim>\<open>initialThickness\<close>, \<^verbatim>\<open>H\<close>, \<^verbatim>\<open>maxAltitude\<close>) are
  parameters of the model; the script's own run is the instance \<open>100\<close>, \<open>12000\<close>, \<open>12000\<close>.
\<close>

definition calculateNextLayerThickness :: "real \<Rightarrow> real \<Rightarrow> real \<Rightarrow> real" where
  "calculateNextLayerThickness h2 initialThickness H = initialThickness * exp (h2 / H)"

text \<open>The three variables the script mutates.\<close>

record builder_state =
  layerStartPoints :: "real list"
  layerThicknesses :: "real list"
  accumulatedHeight :: real

text \<open>
  One pass through the body of the \<^verbatim>\<open>while\<close> loop. Both arrays hold an element from
  their initialisation on and only grow, so reading the last element never leaves the array.
\<close>

definition loop_body :: "real \<Rightarrow> real \<Rightarrow> real \<Rightarrow> builder_state \<Rightarrow> builder_state" where
  "loop_body initialThickness H maxAltitude s =
     (let h2 = last (layerStartPoints s) + last (layerThicknesses s);
          nextThickness = calculateNextLayerThickness h2 initialThickness H;
          nextThickness' =
            (if accumulatedHeight s + nextThickness > maxAltitude
             then maxAltitude - accumulatedHeight s else nextThickness)
      in \<lparr> layerStartPoints = layerStartPoints s @ [h2],
           layerThicknesses = layerThicknesses s @ [nextThickness'],
           accumulatedHeight = accumulatedHeight s + nextThickness' \<rparr>)"

text \<open>The loop itself; \<open>None\<close> stands for a run that never leaves the loop.\<close>

partial_function (option) while_loop ::
  "real \<Rightarrow> real \<Rightarrow> real \<Rightarrow> builder_state \<Rightarrow> builder_state option" where
  "while_loop initialThickness H maxAltitude s =
     (if accumulatedHeight s < maxAltitude
      then while_loop initialThickness H maxAltitude (loop_body initialThickness H maxAltitude s)
      else Some s)"

definition initial_state :: "real \<Rightarrow> builder_state" where
  "initial_state initialThickness =
     \<lparr> layerStartPoints = [0],
       layerThicknesses = [initialThickness],
       accumulatedHeight = initialThickness \<rparr>"

definition build_layers :: "real \<Rightarrow> real \<Rightarrow> real \<Rightarrow> builder_state option" where
  "build_layers initialThickness H maxAltitude =
     while_loop initialThickness H maxAltitude (initial_state initialThickness)"

text \<open>
  What holds of the three variables whenever the loop test is evaluated: the arrays go
  together, the layers are stacked without gap from altitude 0, the accumulated height is
  their total and the top of the last layer, and the count of layers is bounded through
  the initial thickness.
\<close>

definition builder_inv :: "real \<Rightarrow> real \<Rightarrow> builder_state \<Rightarrow> bool" where
  "builder_inv initialThickness maxAltitude s \<longleftrightarrow>
     length (layerStartPoints s) = length (layerThicknesses s) \<and>
     layerThicknesses s \<noteq> [] \<and>
     layerStartPoints s ! 0 = 0 \<and>
     accumulatedHeight s = last (layerStartPoints s) + last (layerThicknesses s) \<and>
     sum_list (layerThicknesses s) = accumulatedHeight s \<and>
     (\<forall>i. Suc i < length (layerThicknesses s) \<longrightarrow>
        layerStartPoints s ! Suc i = layerStartPoints s ! i + layerThicknesses s ! i) \<and>
     (\<forall>t \<in> set (layerThicknesses s). 0 < t) \<and>
     initialThickness \<le> accumulatedHeight s \<and>
     accumulatedHeight s \<le> max initialThickness maxAltitude \<and>
     (accumulatedHeight s < maxAltitude \<longrightarrow>
        real (length (layerThicknesses s)) * initialThickness \<le> accumulatedHeight s) \<and>
     (length (layerThicknesses s) = 1 \<or>
        real (length (layerThicknesses s) - 1) * initialThickness < maxAltitude)"


section \<open>Satellite notebook (\<^verbatim>\<open>src/unnamed/part_001\<close>)\<close>

text \<open>
  The notebook computes with Python and NumPy floats, modelled as real numbers as well.
  Its first cell binds the physical constants as globals; they are collected in a record that
  every later cell receives, so that a statement can range over all positive constants, and
  \<open>notebook_constants\<close> holds the values of the cell.
\<close>

record constants =
  h :: real
  k_B :: real
  c :: real
  N_A :: real
  M_CO2 :: real
  wavelength :: real
  A21 :: real
  sigma_collision :: real
  g_upper :: real
  g_lower :: real
  Z :: real
  sigma_nu :: real

definition notebook_constants :: constants where
  "notebook_constants =
     \<lparr> h = 6.62607015 / 10 ^ 34,
       k_B = 1.380649 / 10 ^ 23,
       c = 2.99792458 * 10 ^ 8,
       N_A = 6.02214076 * 10 ^ 23,
       M_CO2 = 44.01 / 10 ^ 3,
       wavelength = 15 / 10 ^ 6,
       A21 = 1,
       sigma_collision = 3 / 10 ^ 19,
       g_upper = 1,
       g_lower = 1,
       Z = 1,
       sigma_nu = 1 / 10 ^ 22 \<rparr>"

definition m_CO2 :: "constants \<Rightarrow> real" where
  "m_CO2 K = M_CO2 K / N_A K"

definition frequency :: "constants \<Rightarrow> real" where
  "frequency K = c K / wavelength K"

definition energy_transition :: "constants \<Rightarrow> real" where
  "energy_transition K = h K * frequency K"

definition E_lower :: real where
  "E_lower = 0"

definition E_upper :: "constants \<Rightarrow> real" where
  "E_upper K = energy_transition K"

subsection \<open>Layer table and derived columns\<close>

text \<open>A row of the input table, and a row of the table once every column has been added.\<close>

record profile_row =
  Layer :: int
  Altitude :: real
  Temperature :: real
  Pressure :: real
  CO2_Mixing_Ratio :: real

record layer_row = profile_row +
  Number_Density :: real
  CO2_Number_Density :: real
  Boltzmann_Factor :: real
  N_upper :: real
  N_lower :: real
  Average_Speed :: real
  Collisional_Rate :: real
  Radiative_Rate :: real
  Total_Deexcitation_Rate :: real
  P_radiative :: real
  P_collisional :: real
  Kappa :: real
  Emission_Coefficient :: real

text \<open>
  Each column assignment of the notebook works element by element; the functions below are
  the right-hand sides for one row, in the order of the cells. The table is evaluated in
  exact arithmetic. The cells \<^verbatim>\<open>Boltzmann_Factor\<close>, \<^verbatim>\<open>Total_Deexcitation_Rate\<close>,
  \<^verbatim>\<open>P_radiative\<close> and \<^verbatim>\<open>P_collisional\<close> are given a second time, in binary64 arithmetic,
  in the section on binary64 arithmetic below: what is stated about the range of their
  values is stated there, on the rounded values.
\<close>

definition number_density :: "constants \<Rightarrow> real \<Rightarrow> real \<Rightarrow> real" where
  "number_density K pressure temperature = pressure / (k_B K * temperature)"

definition co2_number_density :: "real \<Rightarrow> real \<Rightarrow> real" where
  "co2_number_density numberDensity mixingRatio = numberDensity * mixingRatio"

definition n_upper :: "constants \<Rightarrow> real \<Rightarrow> real \<Rightarrow> real" where
  "n_upper K co2Density bf = co2Density * bf / Z K"

definition n_lower :: "constants \<Rightarrow> real \<Rightarrow> real \<Rightarrow> real" where
  "n_lower K co2Density bf = co2Density * (1 - bf) / Z K"

definition average_speed :: "constants \<Rightarrow> real \<Rightarrow> real" where
  "average_speed K temperature = sqrt ((8 * k_B K * temperature) / (pi * m_CO2 K))"

definition collisional_rate :: "constants \<Rightarrow> real \<Rightarrow> real \<Rightarrow> real" where
  "collisional_rate K numberDensity speed = numberDensity * sigma_collision K * speed"

definition total_deexcitation_rate :: "real \<Rightarrow> real \<Rightarrow> real" where
  "total_deexcitation_rate collisional radiative = collisional + radiative"

definition kappa :: "constants \<Rightarrow> real \<Rightarrow> real \<Rightarrow> real" where
  "kappa K nLower nUpper = (nLower - nUpper) * sigma_nu K"

definition B_nu :: "constants \<Rightarrow> real \<Rightarrow> real" where
  "B_nu K temperature =
     (2 * h K * frequency K ^ 3) / c K ^ 2 / (exp (h K * frequency K / (k_B K * temperature)) - 1)"

definition emission_coefficient :: "constants \<Rightarrow> real \<Rightarrow> real \<Rightarrow> real \<Rightarrow> real" where
  "emission_coefficient K kap pRad temperature =
     kap * pRad * (2 * h K * frequency K ^ 3) / c K ^ 2
       / (exp (h K * frequency K / (k_B K * temperature)) - 1)"

definition layer_properties :: "constants \<Rightarrow> profile_row \<Rightarrow> layer_row" where
  "layer_properties K p =
     (let numberDensity = number_density K (Pressure p) (Temperature p);
          co2Density = co2_number_density numberDensity (CO2_Mixing_Ratio p);
          bf = exp (- E_upper K / (k_B K * Temperature p));
          nUpper = n_upper K co2Density bf;
          nLower = n_lower K co2Density bf;
          speed = average_speed K (Temperature p);
          collisional = collisional_rate K numberDensity speed;
          radiative = A21 K;
          totalRate = total_deexcitation_rate collisional radiative;
          pRad = radiative / totalRate;
          pCol = collisional / totalRate;
          kap = kappa K nLower nUpper;
          emission = emission_coefficient K kap pRad (Temperature p)
      in \<lparr> Layer = Layer p, Altitude = Altitude p, Temperature = Temperature p,
           Pressure = Pressure p, CO2_Mixing_Ratio = CO2_Mixing_Ratio p,
           Number_Density = numberDensity, CO2_Number_Density = co2Density,
           Boltzmann_Factor = bf, N_upper = nUpper, N_lower = nLower,
           Average_Speed = speed, Collisional_Rate = collisional,
           Radiative_Rate = radiative, Total_Deexcitation_Rate = totalRate,
           P_radiative = pRad, P_collisional = pCol,
           Kappa = kap, Emission_Coefficient = emission \<rparr>)"

subsection \<open>Radiative transfer loop\<close>

text \<open>One entry of \<^verbatim>\<open>layer_contributions\<close>; its first two keys repeat columns of the row.\<close>

record contribution =
  Layer_c :: real
  Altitude_c :: real
  Delta_Tau :: real
  Tau_Nu :: real
  B_Nu :: real
  dI_Nu :: real
  I_Nu :: real

record transfer_state =
  I_nu :: real
  tau_nu :: real
  layer_contributions :: "contribution list"

text \<open>
  \<^verbatim>\<open>sort_values(by='Altitude', ascending=False)\<close>: rows by falling altitude. The order
  pandas gives to rows of equal altitude is not fixed; the insertion sort keeps their order.
\<close>

definition layers_sorted :: "layer_row list \<Rightarrow> layer_row list" where
  "layers_sorted layers = sort_key (\<lambda>l. - Altitude l) layers"

definition delta_z :: "layer_row list \<Rightarrow> nat \<Rightarrow> real" where
  "delta_z ls i =
     (if i > 0 then Altitude (ls ! (i - 1)) - Altitude (ls ! i)
      else 100000 - Altitude (ls ! i))"

definition loop_step :: "constants \<Rightarrow> layer_row list \<Rightarrow> transfer_state \<Rightarrow> nat \<Rightarrow> transfer_state" where
  "loop_step K ls st i =
     (let layer = ls ! i;
          dz = delta_z ls i;
          ds = dz / cos 0;
          delta_tau = Kappa layer * ds;
          tau = tau_nu st + delta_tau;
          B = B_nu K (Temperature layer);
          dI = B * (1 - exp (- delta_tau)) * exp (- tau);
          dI' = dI * P_radiative layer;
          I = I_nu st + dI'
      in \<lparr> I_nu = I, tau_nu = tau,
           layer_contributions = layer_contributions st @
             [\<lparr> Layer_c = of_int (Layer layer), Altitude_c = Altitude layer,
                Delta_Tau = delta_tau, Tau_Nu = tau, B_Nu = B, dI_Nu = dI', I_Nu = I \<rparr>] \<rparr>)"

definition transfer_init :: transfer_state where
  "transfer_init = \<lparr> I_nu = 0, tau_nu = 0, layer_contributions = [] \<rparr>"

text \<open>The state after the first \<open>n\<close> passes of the \<^verbatim>\<open>for\<close> loop, and after all of them.\<close>

definition transfer_upto :: "constants \<Rightarrow> layer_row list \<Rightarrow> nat \<Rightarrow> transfer_state" where
  "transfer_upto K ls n = foldl (loop_step K ls) transfer_init [0..<n]"

definition radiative_transfer :: "constants \<Rightarrow> layer_row list \<Rightarrow> transfer_state" where
  "radiative_transfer K ls = transfer_upto K ls (length ls)"

definition solve_transfer :: "constants \<Rightarrow> layer_row list \<Rightarrow> transfer_state" where
  "solve_transfer K layers = radiative_transfer K (layers_sorted layers)"

subsection \<open>Photon flux\<close>

text \<open>
  A division by zero yields no number in Python (an exception for Python floats, \<^verbatim>\<open>nan\<close> or
  \<^verbatim>\<open>inf\<close> with a warning for NumPy scalars); the model returns an error value there.
\<close>

datatype error = ZeroDivisionError

definition photon_flux_density :: "constants \<Rightarrow> real \<Rightarrow> error + real" where
  "photon_flux_density K I_nu_up =
     (if h K * frequency K = 0 then Inl ZeroDivisionError
      else Inr (I_nu_up / (h K * frequency K)))"

definition photon_flux :: "constants \<Rightarrow> real \<Rightarrow> error + real" where
  "photon_flux K I_nu_up =
     (case photon_flux_density K I_nu_up of
        Inl e \<Rightarrow> Inl e
      | Inr density \<Rightarrow>
          (let delta_frequency = frequency K * 0.01;
               solid_angle = 2 * pi
           in Inr (density * delta_frequency * solid_angle)))"

section \<open>Binary64 arithmetic\<close>

text \<open>
  The numbers of the notebook are IEEE 754 binary64 values (Python floats and
  \<^verbatim>\<open>float64\<close> columns). Where a statement depends on rounding, underflow or overflow, the
  cells are evaluated with the operations of this section.

  \<open>rne\<close> rounds a real number to the nearest integer, a tie to the even one.
\<close>

definition rne :: "real \<Rightarrow> int" where
  "rne y = (let f = \<lfloor>y\<rfloor>; d = y - of_int f in
      if d < 1 / 2 then f else if 1 / 2 < d then f + 1 else if even f then f else f + 1)"

text \<open>
  \<open>round64\<close> rounds a real number to the nearest multiple of the unit in the last place of
  its binade: 53 significant bits, and the fixed unit \<open>pow2 (- 1074)\<close> below
  \<open>pow2 (- 1022)\<close> (gradual underflow), where \<open>pow2 e\<close> is 2 to the power \<open>e\<close>. The
  exponent is not bounded from above here.
\<close>

definition pow2 :: "int \<Rightarrow> real" where
  "pow2 e = 2 powr of_int e"

definition ulp_exponent :: "real \<Rightarrow> int" where
  "ulp_exponent x = max (\<lfloor>log 2 \<bar>x\<bar>\<rfloor> - 52) (- 1074)"

definition round64 :: "real \<Rightarrow> real" where
  "round64 x =
     (if x = 0 then 0
      else of_int (rne (x / pow2 (ulp_exponent x))) * pow2 (ulp_exponent x))"

text \<open>
  A binary64 value is a finite number, an infinity or a NaN. The zero carries no sign: it
  stands for \<open>+0\<close>, the zero that the cells below can reach from positive inputs.
  \<open>fl\<close> is the rounding of an exact result, with overflow to an infinity: a result
  that rounds to \<open>pow2 1024\<close> or more in magnitude is infinite.
\<close>

datatype double = Finite real | PInf | NInf | NaN

definition fl :: "real \<Rightarrow> double" where
  "fl x = (let r = round64 x in
      if pow2 1024 \<le> r then PInf else if r \<le> - pow2 1024 then NInf else Finite r)"

text \<open>
  Negation, addition, multiplication and division as NumPy performs them on
  \<^verbatim>\<open>float64\<close>: a division by zero and an invalid operation give an infinity or a NaN and
  a warning, not an exception. \<^verbatim>\<open>np.exp\<close> is taken as correctly rounded.
\<close>

fun neg64 :: "double \<Rightarrow> double" where
  "neg64 (Finite a) = Finite (- a)"
| "neg64 PInf = NInf"
| "neg64 NInf = PInf"
| "neg64 NaN = NaN"

fun add64 :: "double \<Rightarrow> double \<Rightarrow> double" where
  "add64 (Finite a) (Finite b) = fl (a + b)"
| "add64 NaN _ = NaN"
| "add64 _ NaN = NaN"
| "add64 PInf NInf = NaN"
| "add64 NInf PInf = NaN"
| "add64 PInf _ = PInf"
| "add64 _ PInf = PInf"
| "add64 NInf _ = NInf"
| "add64 _ NInf = NInf"

fun mul64 :: "double \<Rightarrow> double \<Rightarrow> double" where
  "mul64 (Finite a) (Finite b) = fl (a * b)"
| "mul64 NaN _ = NaN"
| "mul64 _ NaN = NaN"
| "mul64 (Finite a) PInf = (if a = 0 then NaN else if 0 < a then PInf else NInf)"
| "mul64 (Finite a) NInf = (if a = 0 then NaN else if 0 < a then NInf else PInf)"
| "mul64 PInf (Finite b) = (if b = 0 then NaN else if 0 < b then PInf else NInf)"
| "mul64 NInf (Finite b) = (if b = 0 then NaN else if 0 < b then NInf else PInf)"
| "mul64 PInf PInf = PInf"
| "mul64 PInf NInf = NInf"
| "mul64 NInf PInf = NInf"
| "mul64 NInf NInf = PInf"

fun div64 :: "double \<Rightarrow> double \<Rightarrow> double" where
  "div64 (Finite a) (Finite b) =
     (if b = 0 then (if a = 0 then NaN else if 0 < a then PInf else NInf) else fl (a / b))"
| "div64 NaN _ = NaN"
| "div64 _ NaN = NaN"
| "div64 (Finite a) PInf = Finite 0"
| "div64 (Finite a) NInf = Finite 0"
| "div64 PInf (Finite b) = (if 0 \<le> b then PInf else NInf)"
| "div64 NInf (Finite b) = (if 0 \<le> b then NInf else PInf)"
| "div64 _ _ = NaN"

fun exp64 :: "double \<Rightarrow> double" where
  "exp64 (Finite a) = fl (exp a)"
| "exp64 PInf = PInf"
| "exp64 NInf = Finite 0"
| "exp64 NaN = NaN"

subsection \<open>The cells for the Boltzmann factor and the de-excitation probabilities\<close>

text \<open>
  The right-hand sides of \<^verbatim>\<open>Boltzmann_Factor\<close>, \<^verbatim>\<open>Total_Deexcitation_Rate\<close>,
  \<^verbatim>\<open>P_radiative\<close> and \<^verbatim>\<open>P_collisional\<close> for one row, operation by operation:
  \<^verbatim>\<open>np.exp(-E_upper / (k_B * layers['Temperature']))\<close>,
  \<^verbatim>\<open>layers['Collisional_Rate'] + layers['Radiative_Rate']\<close>,
  \<^verbatim>\<open>layers['Radiative_Rate'] / layers['Total_Deexcitation_Rate']\<close> and
  \<^verbatim>\<open>layers['Collisional_Rate'] / layers['Total_Deexcitation_Rate']\<close>.
\<close>

definition boltzmann_factor64 :: "double \<Rightarrow> double \<Rightarrow> double \<Rightarrow> double" where
  "boltzmann_factor64 eUpper kB temperature = exp64 (div64 (neg64 eUpper) (mul64 kB temperature))"

definition total_deexcitation_rate64 :: "double \<Rightarrow> double \<Rightarrow> double" where
  "total_deexcitation_rate64 collisional radiative = add64 collisional radiative"

definition p_radiative64 :: "double \<Rightarrow> double \<Rightarrow> double" where
  "p_radiative64 radiative totalRate = div64 radiative totalRate"

definition p_collisional64 :: "double \<Rightarrow> double \<Rightarrow> double" where
  "p_collisional64 collisional totalRate = div64 collisional totalRate"

text \<open>
  The constants that enter the Boltzmann factor. A literal is the double nearest to its
  decimal value; \<^verbatim>\<open>frequency\<close> and \<^verbatim>\<open>energy_transition\<close> are computed from the literals.
\<close>

definition h64 :: double where
  "h64 = fl (6.62607015 / 10 ^ 34)"

definition k_B64 :: double where
  "k_B64 = fl (1.380649 / 10 ^ 23)"

definition c64 :: double where
  "c64 = fl (2.99792458 * 10 ^ 8)"

definition wavelength64 :: double where
  "wavelength64 = fl (15 / 10 ^ 6)"

definition frequency64 :: double where
  "frequency64 = div64 c64 wavelength64"

definition energy_transition64 :: double where
  "energy_transition64 = mul64 h64 frequency64"

definition E_upper64 :: double where
  "E_upper64 = energy_transition64"

section \<open>Notions used in the statements and proofs\<close>

text \<open>The table handed to the loop lists the layers from the top down.\<close>

definition top_first :: "layer_row list \<Rightarrow> bool" where
  "top_first ls = sorted_wrt (\<lambda>a b. Altitude b \<le> Altitude a) ls"

text \<open>The increment of optical depth that pass \<open>i\<close> of the loop computes.\<close>

definition delta_tau_of :: "layer_row list \<Rightarrow> nat \<Rightarrow> real" where
  "delta_tau_of ls i = Kappa (ls ! i) * (delta_z ls i / cos 0)"

definition positive_constants :: "constants \<Rightarrow> bool" where
  "positive_constants K \<longleftrightarrow>
     0 < h K \<and> 0 < k_B K \<and> 0 < c K \<and> 0 < N_A K \<and> 0 < M_CO2 K \<and> 0 < wavelength K \<and>
     0 < A21 K \<and> 0 < sigma_collision K \<and> 0 < Z K \<and> 0 < sigma_nu K"

subsection \<open>The layer stack as the specification describes it\<close>

text \<open>
  The specification gives every layer a start altitude and a thickness of its own, asks
  that a layer starts where the one below it ends, and that the thicknesses add up to the
  total column height from altitude 0. The stack is listed from the ground up, as in the
  specification; the notebook's table has the altitudes only.
\<close>

record spec_layer =
  startAltitude :: real
  thickness :: real

fun spec_contiguous :: "spec_layer list \<Rightarrow> bool" where
  "spec_contiguous (a # b # rest) =
     (startAltitude b = startAltitude a + thickness a \<and> spec_contiguous (b # rest))"
| "spec_contiguous _ = True"

definition spec_covers :: "real \<Rightarrow> spec_layer list \<Rightarrow> bool" where
  "spec_covers H_total stack \<longleftrightarrow>
     stack \<noteq> [] \<and> startAltitude (hd stack) = 0 \<and> spec_contiguous stack \<and>
     sum_list (map thickness stack) = H_total"

subsection \<open>The data of the notebook\<close>

text \<open>The five rows of the cell \<^verbatim>\<open>Synthetic Atmospheric Data\<close> and the table derived from them.\<close>

definition notebook_profile :: "profile_row list" where
  "notebook_profile =
     [\<lparr> Layer = 1, Altitude = 0, Temperature = 288.15, Pressure = 101325,
         CO2_Mixing_Ratio = 400 / 10 ^ 6 \<rparr>,
      \<lparr> Layer = 2, Altitude = 5000, Temperature = 255.65, Pressure = 54019,
         CO2_Mixing_Ratio = 400 / 10 ^ 6 \<rparr>,
      \<lparr> Layer = 3, Altitude = 10000, Temperature = 223.15, Pressure = 22632,
         CO2_Mixing_Ratio = 400 / 10 ^ 6 \<rparr>,
      \<lparr> Layer = 4, Altitude = 15000, Temperature = 216.65, Pressure = 12036,
         CO2_Mixing_Ratio = 400 / 10 ^ 6 \<rparr>,
      \<lparr> Layer = 5, Altitude = 20000, Temperature = 216.65, Pressure = 5474,
         CO2_Mixing_Ratio = 400 / 10 ^ 6 \<rparr>]"

definition notebook_layers :: "layer_row list" where
  "notebook_layers = map (layer_properties notebook_constants) notebook_profile"

text \<open>The same atmosphere without carbon dioxide: every absorption coefficient is zero.\<close>

definition clear_layers :: "layer_row list" where
  "clear_layers =
     map (\<lambda>p. layer_properties notebook_constants (p\<lparr> CO2_Mixing_Ratio := 0 \<rparr>)) notebook_profile"

text \<open>The top row of the notebook, moved 100 m above the 100 km that the loop takes as top.\<close>

definition high_profile :: profile_row where
  "high_profile =
     \<lparr> Layer = 5, Altitude = 100100, Temperature = 216.65, Pressure = 5474,
       CO2_Mixing_Ratio = 400 / 10 ^ 6 \<rparr>"

definition high_layer :: layer_row where
  "high_layer = layer_properties notebook_constants high_profile"

text \<open>
  Two stacks in the sense of the specification over the altitudes of the notebook: one
  reaching up to 100 km, one with five layers of 5 km each.
\<close>

definition notebook_stack :: "spec_layer list" where
  "notebook_stack =
     [\<lparr> startAltitude = 0, thickness = 5000 \<rparr>,
      \<lparr> startAltitude = 5000, thickness = 5000 \<rparr>,
      \<lparr> startAltitude = 10000, thickness = 5000 \<rparr>,
      \<lparr> startAltitude = 15000, thickness = 5000 \<rparr>,
      \<lparr> startAltitude = 20000, thickness = 80000 \<rparr>]"

definition uniform_stack :: "spec_layer list" where
  "uniform_stack =
     [\<lparr> startAltitude = 0, thickness = 5000 \<rparr>,
      \<lparr> startAltitude = 5000, thickness = 5000 \<rparr>,
      \<lparr> startAltitude = 10000, thickness = 5000 \<rparr>,
      \<lparr> startAltitude = 15000, thickness = 5000 \<rparr>,
      \<lparr> startAltitude = 20000, thickness = 5000 \<rparr>]"

section \<open>Properties of the layer builder\<close>

text \<open>
  The invariant holds at the start and is kept by the loop body; the distance to the
  total height, counted in initial thicknesses, falls with every pass, so the loop ends.
\<close>

lemma builder_inv_initial:
  "0 < t0 \<Longrightarrow> builder_inv t0 maxAltitude (initial_state t0)"
  by (simp add: builder_inv_def initial_state_def)

lemma next_thickness_ge:
  assumes "0 < t0" "0 < H" "0 \<le> h2"
  shows "t0 \<le> calculateNextLayerThickness h2 t0 H"
proof -
  have "0 \<le> h2 / H" using assms by simp
  then have "1 \<le> exp (h2 / H)" by simp
  then have "t0 * 1 \<le> t0 * exp (h2 / H)" using assms(1) by (intro mult_left_mono) auto
  then show ?thesis by (simp add: calculateNextLayerThickness_def)
qed

lemma builder_inv_step:
  assumes t0: "0 < t0" and H: "0 < H"
    and inv: "builder_inv t0 maxAltitude s"
    and lt: "accumulatedHeight s < maxAltitude"
  shows "builder_inv t0 maxAltitude (loop_body t0 H maxAltitude s)"
proof -
  define h2 where "h2 = last (layerStartPoints s) + last (layerThicknesses s)"
  define nt where "nt = calculateNextLayerThickness h2 t0 H"
  define nt' where "nt' = (if accumulatedHeight s + nt > maxAltitude
             then maxAltitude - accumulatedHeight s else nt)"
  have body: "loop_body t0 H maxAltitude s =
      \<lparr> layerStartPoints = layerStartPoints s @ [h2],
        layerThicknesses = layerThicknesses s @ [nt'],
        accumulatedHeight = accumulatedHeight s + nt' \<rparr>"
    by (simp add: loop_body_def Let_def h2_def nt_def nt'_def)
  from inv have len: "length (layerStartPoints s) = length (layerThicknesses s)"
    and ne: "layerThicknesses s \<noteq> []"
    and z: "layerStartPoints s ! 0 = 0"
    and acc: "accumulatedHeight s = h2"
    and sm: "sum_list (layerThicknesses s) = accumulatedHeight s"
    and cont: "\<forall>i. Suc i < length (layerThicknesses s) \<longrightarrow>
        layerStartPoints s ! Suc i = layerStartPoints s ! i + layerThicknesses s ! i"
    and pos: "\<forall>t \<in> set (layerThicknesses s). 0 < t"
    and ge: "t0 \<le> accumulatedHeight s"
    and le: "accumulatedHeight s \<le> max t0 maxAltitude"
    and cnt: "real (length (layerThicknesses s)) * t0 \<le> accumulatedHeight s"
    using lt by (simp_all add: builder_inv_def h2_def)
  have h2pos: "0 \<le> h2" using acc ge t0 by simp
  have ntge: "t0 \<le> nt" unfolding nt_def by (rule next_thickness_ge [OF t0 H h2pos])
  have nt'pos: "0 < nt'" using ntge t0 lt by (simp add: nt'_def)
  have nt'le: "accumulatedHeight s + nt' \<le> maxAltitude" by (simp add: nt'_def)
  have nes: "layerStartPoints s \<noteq> []" using len ne by auto
  have c1: "\<forall>i. Suc i < length (layerThicknesses s @ [nt']) \<longrightarrow>
        (layerStartPoints s @ [h2]) ! Suc i = (layerStartPoints s @ [h2]) ! i + (layerThicknesses s @ [nt']) ! i"
  proof (intro allI impI)
    fix i assume i: "Suc i < length (layerThicknesses s @ [nt'])"
    show "(layerStartPoints s @ [h2]) ! Suc i = (layerStartPoints s @ [h2]) ! i + (layerThicknesses s @ [nt']) ! i"
    proof (cases "Suc i < length (layerThicknesses s)")
      case True
      then show ?thesis using cont len by (simp add: nth_append)
    next
      case False
      with i have e: "Suc i = length (layerThicknesses s)" by simp
      then have ei: "i = length (layerThicknesses s) - 1" by simp
      have "layerStartPoints s ! i = last (layerStartPoints s)"
        using len nes by (simp add: last_conv_nth ei)
      moreover have "layerThicknesses s ! i = last (layerThicknesses s)"
        using ne by (simp add: last_conv_nth ei)
      ultimately show ?thesis using e len by (simp add: nth_append h2_def)
    qed
  qed
  have c2: "accumulatedHeight s + nt' < maxAltitude \<longrightarrow>
      real (length (layerThicknesses s @ [nt'])) * t0 \<le> accumulatedHeight s + nt'"
  proof
    assume "accumulatedHeight s + nt' < maxAltitude"
    then have "nt' = nt" by (simp add: nt'_def split: if_splits)
    then show "real (length (layerThicknesses s @ [nt'])) * t0 \<le> accumulatedHeight s + nt'"
      using cnt ntge by (simp add: algebra_simps)
  qed
  have c3: "real (length (layerThicknesses s @ [nt']) - 1) * t0 < maxAltitude"
    using cnt lt by simp
  show ?thesis
    unfolding body builder_inv_def
    using len ne z acc sm c1 c2 c3 pos nt'pos ge le nt'le nes
    by (simp add: nth_append)
qed

lemma loop_body_grows:
  assumes t0: "0 < t0" and H: "0 < H"
    and inv: "builder_inv t0 maxAltitude s"
    and lt: "accumulatedHeight s < maxAltitude"
  shows "accumulatedHeight (loop_body t0 H maxAltitude s) = maxAltitude \<or>
         accumulatedHeight s + t0 \<le> accumulatedHeight (loop_body t0 H maxAltitude s)"
proof -
  have "0 \<le> last (layerStartPoints s) + last (layerThicknesses s)"
    using inv t0 by (simp add: builder_inv_def)
  from next_thickness_ge [OF t0 H this] show ?thesis
    by (simp add: loop_body_def Let_def)
qed

lemma measure_decreases:
  fixes a a' t0 m :: real
  assumes "0 < t0" "a < m" "a' = m \<or> a + t0 \<le> a'"
  shows "nat \<lceil>(m - a') / t0\<rceil> < nat \<lceil>(m - a) / t0\<rceil>"
proof -
  have pos: "0 < (m - a) / t0" using assms by simp
  then have c1: "1 \<le> \<lceil>(m - a) / t0\<rceil>" by linarith
  from assms(3) show ?thesis
  proof
    assume "a' = m"
    then show ?thesis using c1 by simp
  next
    assume "a + t0 \<le> a'"
    then have "m - a' \<le> (m - a) - t0" by simp
    then have "(m - a') / t0 \<le> ((m - a) - t0) / t0"
      using assms(1) by (simp add: divide_right_mono)
    also have "\<dots> = (m - a) / t0 - 1" using assms(1) by (simp add: diff_divide_distrib)
    finally have "\<lceil>(m - a') / t0\<rceil> \<le> \<lceil>(m - a) / t0 - 1\<rceil>" by (rule ceiling_mono)
    then have "\<lceil>(m - a') / t0\<rceil> \<le> \<lceil>(m - a) / t0\<rceil> - 1" by simp
    then show ?thesis using c1 by linarith
  qed
qed

lemma while_loop_terminates:
  assumes t0: "0 < t0" and H: "0 < H"
  shows "builder_inv t0 maxAltitude s \<Longrightarrow>
     \<exists>s'. while_loop t0 H maxAltitude s = Some s' \<and> builder_inv t0 maxAltitude s'
           \<and> maxAltitude \<le> accumulatedHeight s'"
proof (induction "nat \<lceil>(maxAltitude - accumulatedHeight s) / t0\<rceil>" arbitrary: s rule: less_induct)
  case less
  show ?case
  proof (cases "accumulatedHeight s < maxAltitude")
    case False
    then show ?thesis using less.prems by (subst while_loop.simps) simp
  next
    case True
    let ?s = "loop_body t0 H maxAltitude s"
    have inv': "builder_inv t0 maxAltitude ?s"
      by (rule builder_inv_step [OF t0 H less.prems True])
    have grow: "accumulatedHeight ?s = maxAltitude \<or> accumulatedHeight s + t0 \<le> accumulatedHeight ?s"
      by (rule loop_body_grows [OF t0 H less.prems True])
    have "nat \<lceil>(maxAltitude - accumulatedHeight ?s) / t0\<rceil> < nat \<lceil>(maxAltitude - accumulatedHeight s) / t0\<rceil>"
      by (rule measure_decreases [OF t0 True grow])
    from less.hyps [OF this inv'] show ?thesis
      using True by (subst while_loop.simps) simp
  qed
qed

lemma build_layers_result:
  assumes "0 < t0" "0 < H"
  shows "\<exists>s. build_layers t0 H maxAltitude = Some s \<and> builder_inv t0 maxAltitude s
           \<and> maxAltitude \<le> accumulatedHeight s"
  unfolding build_layers_def
  by (rule while_loop_terminates [OF assms builder_inv_initial [OF assms(1)]])

lemma build_layers_single:
  "maxAltitude \<le> t0 \<Longrightarrow> build_layers t0 H maxAltitude = Some (initial_state t0)"
  unfolding build_layers_def
  by (subst while_loop.simps) (simp add: initial_state_def)

lemma build_layers_exact:
  assumes "0 < t0" "0 < H" "t0 \<le> maxAltitude"
  shows "\<exists>s. build_layers t0 H maxAltitude = Some s
     \<and> sum_list (layerThicknesses s) = maxAltitude
     \<and> accumulatedHeight s = maxAltitude
     \<and> length (layerStartPoints s) = length (layerThicknesses s)
     \<and> layerStartPoints s ! 0 = 0
     \<and> (\<forall>i. Suc i < length (layerThicknesses s) \<longrightarrow>
          layerStartPoints s ! Suc i = layerStartPoints s ! i + layerThicknesses s ! i)
     \<and> (\<forall>t \<in> set (layerThicknesses s). 0 < t)"
proof -
  from build_layers_result [OF assms(1,2), of maxAltitude] obtain s where
    s: "build_layers t0 H maxAltitude = Some s" "builder_inv t0 maxAltitude s"
       "maxAltitude \<le> accumulatedHeight s" by blast
  from s(2) assms(3) have "accumulatedHeight s \<le> maxAltitude"
    by (simp add: builder_inv_def)
  with s(3) have "accumulatedHeight s = maxAltitude" by simp
  with s(1,2) show ?thesis by (auto simp: builder_inv_def)
qed




text \<open>
  Claim C1. The thicknesses are to sum to the total height without overshoot. The clip
  against \<^verbatim>\<open>maxAltitude\<close> is applied to the layers made in the loop only: with an initial
  thickness of 200 and a total height of 100 the loop is never entered, and the single layer
  has thickness 200, twice the total height. (For an initial thickness of at most the total
  height the sum is exact and the layers are contiguous: \<open>build_layers_exact\<close>.)
\<close>

theorem first_layer_overshoots:
  "\<exists>s. build_layers 200 12000 100 = Some s \<and> sum_list (layerThicknesses s) = 200
     \<and> accumulatedHeight s = 200"
  by (simp add: build_layers_single initial_state_def)

text \<open>
  Claim C2. With an initial thickness of at least the total height there is to be one layer,
  of thickness equal to the total height. For initial thickness 150 and total height 100 the
  builder returns one layer, and its thickness is 150.
\<close>

theorem first_layer_not_clipped:
  "build_layers 150 12000 100 =
     Some \<lparr> layerStartPoints = [0], layerThicknesses = [150], accumulatedHeight = 150 \<rparr>"
  by (simp add: build_layers_single initial_state_def)

section \<open>Properties of the radiative transfer loop\<close>

text \<open>What one pass of the loop does to the optical depth, the radiance and the trace.\<close>

lemma transfer_upto_0: "transfer_upto K ls 0 = transfer_init"
  by (simp add: transfer_upto_def)

lemma transfer_upto_Suc:
  "transfer_upto K ls (Suc n) = loop_step K ls (transfer_upto K ls n) n"
  by (simp add: transfer_upto_def)

lemma tau_step:
  "tau_nu (transfer_upto K ls (Suc n)) = tau_nu (transfer_upto K ls n) + delta_tau_of ls n"
  by (simp add: transfer_upto_Suc loop_step_def Let_def delta_tau_of_def)

lemma I_step:
  "I_nu (transfer_upto K ls (Suc n)) =
     I_nu (transfer_upto K ls n) +
       B_nu K (Temperature (ls ! n)) * (1 - exp (- delta_tau_of ls n))
         * exp (- tau_nu (transfer_upto K ls (Suc n))) * P_radiative (ls ! n)"
  by (simp add: transfer_upto_Suc loop_step_def Let_def delta_tau_of_def)

lemma contributions_step:
  "layer_contributions (transfer_upto K ls (Suc n)) =
     layer_contributions (transfer_upto K ls n) @
       [\<lparr> Layer_c = of_int (Layer (ls ! n)), Altitude_c = Altitude (ls ! n),
          Delta_Tau = delta_tau_of ls n,
          Tau_Nu = tau_nu (transfer_upto K ls (Suc n)),
          B_Nu = B_nu K (Temperature (ls ! n)),
          dI_Nu = B_nu K (Temperature (ls ! n)) * (1 - exp (- delta_tau_of ls n))
            * exp (- tau_nu (transfer_upto K ls (Suc n))) * P_radiative (ls ! n),
          I_Nu = I_nu (transfer_upto K ls (Suc n)) \<rparr>]"
  by (simp add: transfer_upto_Suc loop_step_def Let_def delta_tau_of_def)

lemma contributions_length:
  "length (layer_contributions (transfer_upto K ls n)) = n"
  by (induction n) (simp_all add: transfer_upto_0 transfer_init_def contributions_step)

lemma contributions_nth:
  "i < n \<Longrightarrow> layer_contributions (transfer_upto K ls n) ! i =
       \<lparr> Layer_c = of_int (Layer (ls ! i)), Altitude_c = Altitude (ls ! i),
          Delta_Tau = delta_tau_of ls i,
          Tau_Nu = tau_nu (transfer_upto K ls (Suc i)),
          B_Nu = B_nu K (Temperature (ls ! i)),
          dI_Nu = B_nu K (Temperature (ls ! i)) * (1 - exp (- delta_tau_of ls i))
            * exp (- tau_nu (transfer_upto K ls (Suc i))) * P_radiative (ls ! i),
          I_Nu = I_nu (transfer_upto K ls (Suc i)) \<rparr>"
proof (induction n)
  case 0
  then show ?case by simp
next
  case (Suc n)
  show ?case
  proof (cases "i < n")
    case True
    with Suc.IH show ?thesis
      by (simp add: contributions_step [of K ls n] nth_append contributions_length)
  next
    case False
    with Suc.prems have "i = n" by simp
    then show ?thesis
      by (simp add: contributions_step [of K ls n] nth_append contributions_length)
  qed
qed

lemma layers_sorted_top_first: "top_first (layers_sorted layers)"
proof -
  have "sorted (map (\<lambda>l. - Altitude l) (layers_sorted layers))"
    unfolding layers_sorted_def by (rule sorted_sort_key)
  then show ?thesis by (simp add: top_first_def sorted_map)
qed

lemma delta_z_nonneg:
  assumes "top_first ls" "Suc i < length ls"
  shows "0 \<le> delta_z ls (Suc i)"
proof -
  from assms(1) have "sorted_wrt (\<lambda>a b. Altitude b \<le> Altitude a) ls"
    by (simp add: top_first_def)
  from sorted_wrt_nth_less [OF this, of i "Suc i"] assms(2)
  have "Altitude (ls ! Suc i) \<le> Altitude (ls ! i)" by simp
  then show ?thesis by (simp add: delta_z_def)
qed

lemma zero_kappa_I:
  "(\<forall>i<n. Kappa (ls ! i) = 0) \<Longrightarrow> I_nu (transfer_upto K ls n) = 0"
proof (induction n)
  case 0
  then show ?case by (simp add: transfer_upto_0 transfer_init_def)
next
  case (Suc n)
  then show ?case by (simp add: I_step delta_tau_of_def)
qed

lemma delta_tau_nonneg:
  assumes tf: "top_first ls" and i: "i < length ls"
    and rows: "\<forall>l \<in> set ls. 0 \<le> Kappa l \<and> Altitude l \<le> 100000"
  shows "0 \<le> delta_tau_of ls i"
proof -
  from i rows have k: "0 \<le> Kappa (ls ! i)" by simp
  have "0 \<le> delta_z ls i"
  proof (cases i)
    case 0
    with i rows have "Altitude (ls ! 0) \<le> 100000" by simp
    with 0 i show ?thesis by (simp add: delta_z_def)
  next
    case (Suc j)
    with delta_z_nonneg [OF tf, of j] i show ?thesis by simp
  qed
  with k show ?thesis by (simp add: delta_tau_of_def)
qed

section \<open>Properties of the derived columns\<close>


lemma layer_properties_fields [simp]:
  "Layer (layer_properties K p) = Layer p"
  "Altitude (layer_properties K p) = Altitude p"
  "Temperature (layer_properties K p) = Temperature p"
  "Boltzmann_Factor (layer_properties K p) = exp (- E_upper K / (k_B K * Temperature p))"
  "Radiative_Rate (layer_properties K p) = A21 K"
  by (simp_all add: layer_properties_def Let_def)

lemma layer_properties_probabilities:
  "Total_Deexcitation_Rate (layer_properties K p)
     = Collisional_Rate (layer_properties K p) + Radiative_Rate (layer_properties K p)"
  "P_radiative (layer_properties K p)
     = Radiative_Rate (layer_properties K p) / Total_Deexcitation_Rate (layer_properties K p)"
  "P_collisional (layer_properties K p)
     = Collisional_Rate (layer_properties K p) / Total_Deexcitation_Rate (layer_properties K p)"
  by (simp_all add: layer_properties_def Let_def total_deexcitation_rate_def)


lemma boltzmann_factor_lt_half:
  assumes "0 < k_B K" "0 < T" "k_B K * T < E_upper K"
  shows "exp (- E_upper K / (k_B K * T)) < 1 / 2"
proof -
  define x where "x = E_upper K / (k_B K * T)"
  have "1 < x" using assms by (simp add: x_def)
  moreover have "1 + x \<le> exp x" by (rule exp_ge_add_one_self)
  ultimately have "2 < exp x" by linarith
  then have "1 / exp x < 1 / 2"
    by (intro divide_strict_left_mono) simp_all
  then show ?thesis by (simp add: x_def exp_minus inverse_eq_divide)
qed

lemma Kappa_eq:
  "Kappa (layer_properties K p) =
     Pressure p / (k_B K * Temperature p) * CO2_Mixing_Ratio p
       * (1 - 2 * exp (- E_upper K / (k_B K * Temperature p))) / Z K * sigma_nu K"
  by (simp add: layer_properties_def Let_def kappa_def n_lower_def n_upper_def
        co2_number_density_def number_density_def algebra_simps diff_divide_distrib)

lemma Kappa_pos:
  assumes "positive_constants K" "0 < Temperature p" "0 < Pressure p" "0 < CO2_Mixing_Ratio p"
    and "k_B K * Temperature p < E_upper K"
  shows "0 < Kappa (layer_properties K p)"
proof -
  from assms(1) have k: "0 < k_B K" "0 < Z K" "0 < sigma_nu K"
    by (simp_all add: positive_constants_def)
  have "0 < 1 - 2 * exp (- E_upper K / (k_B K * Temperature p))"
    using boltzmann_factor_lt_half [OF k(1) assms(2,5)] by simp
  then show ?thesis using assms(2-4) k by (simp add: Kappa_eq)
qed

lemma Kappa_zero:
  "CO2_Mixing_Ratio p = 0 \<Longrightarrow> Kappa (layer_properties K p) = 0"
  by (simp add: Kappa_eq)

lemma Collisional_Rate_pos:
  assumes "positive_constants K" "0 < Temperature p" "0 < Pressure p"
  shows "0 < Collisional_Rate (layer_properties K p)"
proof -
  from assms(1) have k: "0 < k_B K" "0 < N_A K" "0 < M_CO2 K" "0 < sigma_collision K"
    by (simp_all add: positive_constants_def)
  have "0 < number_density K (Pressure p) (Temperature p)"
    using assms k by (simp add: number_density_def)
  moreover have "0 < average_speed K (Temperature p)"
    using assms k by (simp add: average_speed_def m_CO2_def)
  ultimately show ?thesis using k
    by (simp add: layer_properties_def Let_def collisional_rate_def)
qed

lemma P_radiative_pos:
  assumes "positive_constants K" "0 < Temperature p" "0 < Pressure p"
  shows "0 < P_radiative (layer_properties K p)"
proof -
  from assms(1) have "0 < A21 K" by (simp add: positive_constants_def)
  with Collisional_Rate_pos [OF assms] show ?thesis
    by (simp add: layer_properties_probabilities add_pos_pos)
qed



section \<open>The notebook's data\<close>

lemma positive_notebook_constants: "positive_constants notebook_constants"
  by (simp add: positive_constants_def notebook_constants_def)

lemma notebook_profile_physical:
  "\<forall>p \<in> set (high_profile # notebook_profile).
     0 < Temperature p \<and> 0 < Pressure p \<and> 0 < CO2_Mixing_Ratio p \<and>
     k_B notebook_constants * Temperature p < E_upper notebook_constants"
  by (simp add: notebook_profile_def high_profile_def notebook_constants_def E_upper_def
        energy_transition_def frequency_def)

lemma notebook_layers_physical:
  "\<forall>l \<in> set notebook_layers.
     0 < Kappa l \<and> 0 < Temperature l \<and> 0 < P_radiative l \<and> Altitude l \<le> 100000"
proof
  fix l assume "l \<in> set notebook_layers"
  then obtain p where p: "p \<in> set notebook_profile" "l = layer_properties notebook_constants p"
    by (auto simp: notebook_layers_def)
  from p(1) have "Altitude p \<le> 100000" by (auto simp: notebook_profile_def)
  with p notebook_profile_physical
  show "0 < Kappa l \<and> 0 < Temperature l \<and> 0 < P_radiative l \<and> Altitude l \<le> 100000"
    by (simp add: Kappa_pos P_radiative_pos positive_notebook_constants)
qed

lemma high_layer_physical:
  "0 < Kappa high_layer" "0 < Temperature high_layer" "0 < P_radiative high_layer"
  using notebook_profile_physical
  by (simp_all add: high_layer_def Kappa_pos P_radiative_pos positive_notebook_constants)

lemma high_layer_altitude: "Altitude high_layer = 100100"
  by (simp add: high_layer_def high_profile_def)

lemma notebook_layers_length [simp]: "length notebook_layers = 5"
  by (simp add: notebook_layers_def notebook_profile_def)

section \<open>The specification's stack and the path length\<close>

lemma spec_contiguous_nth:
  "spec_contiguous st \<Longrightarrow> Suc j < length st \<Longrightarrow>
     startAltitude (st ! Suc j) = startAltitude (st ! j) + thickness (st ! j)"
proof (induction st arbitrary: j rule: spec_contiguous.induct)
  case (1 a b rest)
  then show ?case by (cases j) auto
qed auto

section \<open>The claims about the notebook\<close>

text \<open>
  Claim C3. The loop is a sequential fold over the layers as listed: in pass \<open>i\<close> the
  optical depth is raised by \<open>Delta_Tau\<close> first, the contribution of the layer is
  \<open>B_Nu * (1 - exp (- Delta_Tau)) * exp (- Tau_Nu) * P_radiative\<close> with the raised
  optical depth, it is added to the running radiance, and the radiance returned is the one
  recorded for the last layer. Optical depth and radiance start from 0.
\<close>

theorem integrator_fold:
  assumes "i < length ls"
  shows "length (layer_contributions (radiative_transfer K ls)) = length ls \<and>
    Delta_Tau (layer_contributions (radiative_transfer K ls) ! i)
      = Kappa (ls ! i) * (delta_z ls i / cos 0) \<and>
    Tau_Nu (layer_contributions (radiative_transfer K ls) ! i)
      = (if i = 0 then 0 else Tau_Nu (layer_contributions (radiative_transfer K ls) ! (i - 1)))
        + Delta_Tau (layer_contributions (radiative_transfer K ls) ! i) \<and>
    B_Nu (layer_contributions (radiative_transfer K ls) ! i) = B_nu K (Temperature (ls ! i)) \<and>
    dI_Nu (layer_contributions (radiative_transfer K ls) ! i)
      = B_Nu (layer_contributions (radiative_transfer K ls) ! i)
        * (1 - exp (- Delta_Tau (layer_contributions (radiative_transfer K ls) ! i)))
        * exp (- Tau_Nu (layer_contributions (radiative_transfer K ls) ! i))
        * P_radiative (ls ! i) \<and>
    I_Nu (layer_contributions (radiative_transfer K ls) ! i)
      = (if i = 0 then 0 else I_Nu (layer_contributions (radiative_transfer K ls) ! (i - 1)))
        + dI_Nu (layer_contributions (radiative_transfer K ls) ! i) \<and>
    I_nu (radiative_transfer K ls)
      = I_Nu (last (layer_contributions (radiative_transfer K ls)))"
proof -
  let ?tr = "layer_contributions (radiative_transfer K ls)"
  have len: "length ?tr = length ls"
    by (simp add: radiative_transfer_def contributions_length)
  have nth: "?tr ! i = \<lparr> Layer_c = of_int (Layer (ls ! i)), Altitude_c = Altitude (ls ! i),
          Delta_Tau = delta_tau_of ls i,
          Tau_Nu = tau_nu (transfer_upto K ls (Suc i)),
          B_Nu = B_nu K (Temperature (ls ! i)),
          dI_Nu = B_nu K (Temperature (ls ! i)) * (1 - exp (- delta_tau_of ls i))
            * exp (- tau_nu (transfer_upto K ls (Suc i))) * P_radiative (ls ! i),
          I_Nu = I_nu (transfer_upto K ls (Suc i)) \<rparr>"
    unfolding radiative_transfer_def by (rule contributions_nth [OF assms])
  have prev: "Tau_Nu (?tr ! (i - 1)) = tau_nu (transfer_upto K ls i)
      \<and> I_Nu (?tr ! (i - 1)) = I_nu (transfer_upto K ls i)" if "i \<noteq> 0"
  proof -
    from that obtain j where j: "i = Suc j" by (cases i) auto
    with assms have "j < length ls" by simp
    from contributions_nth [OF this, of K ls] show ?thesis
      by (simp add: j radiative_transfer_def)
  qed
  have zero: "tau_nu (transfer_upto K ls 0) = 0" "I_nu (transfer_upto K ls 0) = 0"
    by (simp_all add: transfer_upto_0 transfer_init_def)
  have fin: "I_nu (radiative_transfer K ls) = I_Nu (last ?tr)"
  proof -
    from assms obtain m where m: "length ls = Suc m" by (cases "length ls") auto
    then show ?thesis
      by (simp add: radiative_transfer_def contributions_step [of K ls m])
  qed
  show ?thesis
  proof (cases "i = 0")
    case True
    then show ?thesis using len nth fin zero
      by (simp add: tau_step [of K ls 0] I_step [of K ls 0] delta_tau_of_def)
  next
    case False
    then show ?thesis using len nth fin prev
      by (simp add: tau_step [of K ls i] I_step [of K ls i] delta_tau_of_def)
  qed
qed

text \<open>The second pass of the loop over the notebook's table.\<close>

theorem integrator_fold_witness:
  "(1::nat) < length (layers_sorted notebook_layers) \<and>
   Tau_Nu (layer_contributions (radiative_transfer notebook_constants (layers_sorted notebook_layers)) ! 1)
     = Tau_Nu (layer_contributions (radiative_transfer notebook_constants (layers_sorted notebook_layers)) ! 0)
       + Delta_Tau (layer_contributions (radiative_transfer notebook_constants (layers_sorted notebook_layers)) ! 1) \<and>
   I_Nu (layer_contributions (radiative_transfer notebook_constants (layers_sorted notebook_layers)) ! 1)
     = I_Nu (layer_contributions (radiative_transfer notebook_constants (layers_sorted notebook_layers)) ! 0)
       + dI_Nu (layer_contributions (radiative_transfer notebook_constants (layers_sorted notebook_layers)) ! 1) \<and>
   I_nu (radiative_transfer notebook_constants (layers_sorted notebook_layers))
     = I_Nu (last (layer_contributions
         (radiative_transfer notebook_constants (layers_sorted notebook_layers))))"
proof -
  have l: "(1::nat) < length (layers_sorted notebook_layers)"
    by (simp add: layers_sorted_def)
  from integrator_fold [OF l, of notebook_constants] l show ?thesis by simp
qed

text \<open>
  Claim C4, amended. The loop knows no thickness: it takes the distance from the altitude of
  a layer up to the altitude of the layer listed before it, and up to 100 km for the first
  layer. In a pass over a contiguous stack, \<open>Delta_Tau\<close> of every layer is \<open>Kappa\<close> times
  the path length \<open>delta_z / cos 0\<close>; for every layer but the topmost the path length is the
  thickness of the layer over \<open>cos 0\<close>, whatever the height of the column; for the topmost
  layer it is 100 km less the start altitude of the layer, over \<open>cos 0\<close>, which is its
  thickness over \<open>cos 0\<close> exactly when the top of the stack is at 100 km.
\<close>

theorem path_length_is_thickness:
  assumes "spec_contiguous stack"
    and "map Altitude ls = rev (map startAltitude stack)"
    and "i < length ls"
  shows "Delta_Tau (layer_contributions (radiative_transfer K ls) ! i)
      = Kappa (ls ! i) * (delta_z ls i / cos 0) \<and>
    (0 < i \<longrightarrow> delta_z ls i / cos 0 = thickness (rev stack ! i) / cos 0) \<and>
    (i = 0 \<longrightarrow>
       delta_z ls i / cos 0 = (100000 - startAltitude (rev stack ! i)) / cos 0 \<and>
       (delta_z ls i / cos 0 = thickness (rev stack ! i) / cos 0 \<longleftrightarrow>
          startAltitude (rev stack ! i) + thickness (rev stack ! i) = 100000))"
proof -
  from assms(2) have len: "length ls = length stack"
    by (metis length_map length_rev)
  have altn: "Altitude (ls ! k) = startAltitude (rev stack ! k)" if "k < length stack" for k
  proof -
    have "Altitude (ls ! k) = map Altitude ls ! k" using that len by simp
    also have "\<dots> = rev (map startAltitude stack) ! k" by (simp add: assms(2))
    also have "\<dots> = startAltitude (rev stack ! k)"
      using that by (simp add: rev_map)
    finally show ?thesis .
  qed
  have dt: "Delta_Tau (layer_contributions (radiative_transfer K ls) ! i)
      = Kappa (ls ! i) * (delta_z ls i / cos 0)"
    using assms(3) by (simp add: radiative_transfer_def contributions_nth delta_tau_of_def)
  have low: "delta_z ls i = thickness (rev stack ! i)" if "0 < i"
  proof -
    from that obtain k where k: "i = Suc k" by (cases i) auto
    with assms(3) len have kk: "Suc k < length stack" by simp
    define j where "j = length stack - Suc (Suc k)"
    have j: "Suc j < length stack" "length stack - Suc k = Suc j"
      using kk by (simp_all add: j_def)
    from spec_contiguous_nth [OF assms(1) j(1)]
    have "startAltitude (stack ! Suc j) - startAltitude (stack ! j) = thickness (stack ! j)"
      by simp
    then show ?thesis using k kk j
      by (simp add: delta_z_def altn rev_nth j_def)
  qed
  have top: "delta_z ls i = 100000 - startAltitude (rev stack ! i)" if "i = 0"
    using that assms(3) len by (simp add: delta_z_def altn)
  show ?thesis using dt low top by auto
qed

text \<open>
  The second layer from the top in a column of 25 km, and the topmost layer of the notebook,
  80 km thick in a column of 100 km.
\<close>

theorem path_length_is_thickness_witness:
  "spec_contiguous uniform_stack \<and>
   map Altitude (rev notebook_layers) = rev (map startAltitude uniform_stack) \<and>
   delta_z (rev notebook_layers) 1 = 5000 \<and> thickness (rev uniform_stack ! 1) = 5000 \<and>
   spec_contiguous notebook_stack \<and>
   map Altitude (rev notebook_layers) = rev (map startAltitude notebook_stack) \<and>
   startAltitude (rev notebook_stack ! 0) + thickness (rev notebook_stack ! 0) = 100000 \<and>
   delta_z (rev notebook_layers) 0 = 80000 \<and> thickness (rev notebook_stack ! 0) = 80000 \<and>
   Delta_Tau (layer_contributions (radiative_transfer notebook_constants (rev notebook_layers)) ! 0)
     = Kappa (rev notebook_layers ! 0) * (80000 / cos 0)"
proof -
  have c: "spec_contiguous uniform_stack" "spec_contiguous notebook_stack"
    by (simp_all add: uniform_stack_def notebook_stack_def)
  have a: "map Altitude (rev notebook_layers) = rev (map startAltitude uniform_stack)"
    "map Altitude (rev notebook_layers) = rev (map startAltitude notebook_stack)"
    by (simp_all add: notebook_layers_def notebook_profile_def notebook_stack_def uniform_stack_def)
  have i: "1 < length (rev notebook_layers)" "0 < length (rev notebook_layers)" by simp_all
  have t: "thickness (rev uniform_stack ! 1) = 5000" "thickness (rev notebook_stack ! 0) = 80000"
    "startAltitude (rev notebook_stack ! 0) + thickness (rev notebook_stack ! 0) = 100000"
    by (simp_all add: uniform_stack_def notebook_stack_def)
  from path_length_is_thickness [OF c(1) a(1) i(1), of notebook_constants]
    path_length_is_thickness [OF c(2) a(2) i(2), of notebook_constants] c a t
  show ?thesis by simp
qed

text \<open>
  Claim C4 as stated fails for a column of another height: over five layers of 5 km each the
  loop still uses 80 km for the topmost layer, not its thickness of 5 km.
\<close>

theorem top_layer_path_not_thickness:
  "spec_covers 25000 uniform_stack \<and>
   map Altitude (rev notebook_layers) = rev (map startAltitude uniform_stack) \<and>
   thickness (rev uniform_stack ! 0) = 5000 \<and>
   Delta_Tau (layer_contributions (radiative_transfer notebook_constants (rev notebook_layers)) ! 0)
     = Kappa (rev notebook_layers ! 0) * (80000 / cos 0) \<and>
   Delta_Tau (layer_contributions (radiative_transfer notebook_constants (rev notebook_layers)) ! 0)
     \<noteq> Kappa (rev notebook_layers ! 0) * (thickness (rev uniform_stack ! 0) / cos 0)"
proof -
  have c: "spec_covers 25000 uniform_stack"
    by (simp add: spec_covers_def uniform_stack_def)
  have a: "map Altitude (rev notebook_layers) = rev (map startAltitude uniform_stack)"
    by (simp add: notebook_layers_def notebook_profile_def uniform_stack_def)
  have t: "thickness (rev uniform_stack ! 0) = 5000"
    by (simp add: uniform_stack_def)
  have z: "delta_z (rev notebook_layers) 0 = 80000"
    by (simp add: delta_z_def notebook_layers_def notebook_profile_def)
  have "rev notebook_layers ! 0 \<in> set notebook_layers"
    by (simp add: notebook_layers_def notebook_profile_def)
  with notebook_layers_physical have k: "0 < Kappa (rev notebook_layers ! 0)" by blast
  have d: "Delta_Tau (layer_contributions (radiative_transfer notebook_constants (rev notebook_layers)) ! 0)
     = Kappa (rev notebook_layers ! 0) * (80000 / cos 0)"
    by (simp add: radiative_transfer_def contributions_nth delta_tau_of_def z)
  from c a t d k show ?thesis by simp
qed

text \<open>
  Claim C5, amended. With no negative absorption coefficient in the table, the optical depth
  recorded for a layer is at most the one recorded for the next layer; when in addition no
  layer lies above 100 km, the running optical depth starts at 0 and does not fall in any
  pass of the loop, the first included, and the value recorded for a layer is the running
  value after its pass. When every absorption coefficient is zero, the radiance recorded
  after each layer and the radiance returned are 0.
\<close>

theorem optical_depth_monotone:
  "((\<forall>l \<in> set layers. 0 \<le> Kappa l) \<longrightarrow>
      (\<forall>i. Suc i < length layers \<longrightarrow>
         Tau_Nu (layer_contributions (solve_transfer K layers) ! i)
           \<le> Tau_Nu (layer_contributions (solve_transfer K layers) ! Suc i)) \<and>
      ((\<forall>l \<in> set layers. Altitude l \<le> 100000) \<longrightarrow>
         tau_nu (transfer_upto K (layers_sorted layers) 0) = 0 \<and>
         (\<forall>n<length layers.
            tau_nu (transfer_upto K (layers_sorted layers) n)
              \<le> tau_nu (transfer_upto K (layers_sorted layers) (Suc n)) \<and>
            Tau_Nu (layer_contributions (solve_transfer K layers) ! n)
              = tau_nu (transfer_upto K (layers_sorted layers) (Suc n))))) \<and>
   ((\<forall>l \<in> set layers. Kappa l = 0) \<longrightarrow>
      (\<forall>i<length layers. I_Nu (layer_contributions (solve_transfer K layers) ! i) = 0) \<and>
      I_nu (solve_transfer K layers) = 0)"
proof (intro conjI impI allI)
  let ?ls = "layers_sorted layers"
  have len: "length ?ls = length layers" and st: "set ?ls = set layers"
    by (simp_all add: layers_sorted_def)
  {
    fix i assume k: "\<forall>l \<in> set layers. 0 \<le> Kappa l" and i: "Suc i < length layers"
    from i have "?ls ! Suc i \<in> set ?ls" using len by (simp del: set_sort)
    with k st have "0 \<le> Kappa (?ls ! Suc i)" by simp
    moreover have "0 \<le> delta_z ?ls (Suc i)"
      using delta_z_nonneg [OF layers_sorted_top_first] i len by simp
    ultimately have "0 \<le> delta_tau_of ?ls (Suc i)" by (simp add: delta_tau_of_def)
    then show "Tau_Nu (layer_contributions (solve_transfer K layers) ! i)
           \<le> Tau_Nu (layer_contributions (solve_transfer K layers) ! Suc i)"
      using i len
      by (simp add: solve_transfer_def radiative_transfer_def contributions_nth
            tau_step [of K ?ls "Suc i"])
  }
  {
    assume k: "\<forall>l \<in> set layers. 0 \<le> Kappa l" and a: "\<forall>l \<in> set layers. Altitude l \<le> 100000"
    show "tau_nu (transfer_upto K ?ls 0) = 0"
      by (simp add: transfer_upto_0 transfer_init_def)
    fix n assume n: "n < length layers"
    have rows: "\<forall>l \<in> set ?ls. 0 \<le> Kappa l \<and> Altitude l \<le> 100000"
      using k a st by simp
    have "0 \<le> delta_tau_of ?ls n"
      using delta_tau_nonneg [OF layers_sorted_top_first _ rows] n len by simp
    then show "tau_nu (transfer_upto K ?ls n) \<le> tau_nu (transfer_upto K ?ls (Suc n))"
      by (simp add: tau_step)
    show "Tau_Nu (layer_contributions (solve_transfer K layers) ! n)
              = tau_nu (transfer_upto K ?ls (Suc n))"
      using n len by (simp add: solve_transfer_def radiative_transfer_def contributions_nth)
  }
  {
    assume k: "\<forall>l \<in> set layers. Kappa l = 0"
    have z: "\<forall>i<n. Kappa (?ls ! i) = 0" if "n \<le> length layers" for n
    proof (intro allI impI)
      fix i assume "i < n"
      with that len have "?ls ! i \<in> set ?ls" by (simp del: set_sort)
      with k st show "Kappa (?ls ! i) = 0" by simp
    qed
    show "I_nu (solve_transfer K layers) = 0"
      using zero_kappa_I [OF z [of "length layers"]] len
      by (simp add: solve_transfer_def radiative_transfer_def)
    fix i assume i: "i < length layers"
    then have "Suc i \<le> length layers" by simp
    from zero_kappa_I [OF z [OF this]] i len
    show "I_Nu (layer_contributions (solve_transfer K layers) ! i) = 0"
      by (simp add: solve_transfer_def radiative_transfer_def contributions_nth)
  }
qed

text \<open>The notebook's table, and the same table without carbon dioxide.\<close>

theorem optical_depth_monotone_witness:
  "list_all (\<lambda>l. 0 \<le> Kappa l) notebook_layers \<and>
   list_all (\<lambda>l. Altitude l \<le> 100000) notebook_layers \<and>
   tau_nu (transfer_upto notebook_constants (layers_sorted notebook_layers) 0)
     \<le> Tau_Nu (layer_contributions (solve_transfer notebook_constants notebook_layers) ! 0) \<and>
   Tau_Nu (layer_contributions (solve_transfer notebook_constants notebook_layers) ! 0)
     \<le> Tau_Nu (layer_contributions (solve_transfer notebook_constants notebook_layers) ! 1) \<and>
   list_all (\<lambda>l. Kappa l = 0) clear_layers \<and>
   I_Nu (layer_contributions (solve_transfer notebook_constants clear_layers) ! 4) = 0 \<and>
   I_nu (solve_transfer notebook_constants clear_layers) = 0"
proof -
  have k: "\<forall>l \<in> set notebook_layers. 0 \<le> Kappa l"
    and a: "\<forall>l \<in> set notebook_layers. Altitude l \<le> 100000"
    using notebook_layers_physical by auto
  have z: "\<forall>l \<in> set clear_layers. Kappa l = 0"
    by (auto simp: clear_layers_def Kappa_zero)
  have n: "length clear_layers = 5"
    by (simp add: clear_layers_def notebook_profile_def)
  note t = optical_depth_monotone [of notebook_layers notebook_constants]
  from t k have "Tau_Nu (layer_contributions (solve_transfer notebook_constants notebook_layers) ! 0)
     \<le> Tau_Nu (layer_contributions (solve_transfer notebook_constants notebook_layers) ! 1)"
    by simp
  moreover from t k a
  have "\<forall>n<length notebook_layers.
     tau_nu (transfer_upto notebook_constants (layers_sorted notebook_layers) n)
       \<le> tau_nu (transfer_upto notebook_constants (layers_sorted notebook_layers) (Suc n)) \<and>
     Tau_Nu (layer_contributions (solve_transfer notebook_constants notebook_layers) ! n)
       = tau_nu (transfer_upto notebook_constants (layers_sorted notebook_layers) (Suc n))"
    by blast
  then have "tau_nu (transfer_upto notebook_constants (layers_sorted notebook_layers) 0)
     \<le> Tau_Nu (layer_contributions (solve_transfer notebook_constants notebook_layers) ! 0)"
    by simp
  moreover from optical_depth_monotone [of clear_layers notebook_constants] z n
  have "I_Nu (layer_contributions (solve_transfer notebook_constants clear_layers) ! 4) = 0 \<and>
   I_nu (solve_transfer notebook_constants clear_layers) = 0"
    by simp
  ultimately show ?thesis using k a z by (simp add: list_all_iff)
qed

text \<open>
  Claim C5 as stated fails in the first pass for a layer above 100 km: the absorption
  coefficient of the row is positive, the path length \<open>100e3 - Altitude\<close> is negative, and
  the optical depth falls from its initial 0 to a negative value.
\<close>

theorem optical_depth_falls_above_top:
  "0 \<le> Kappa high_layer \<and>
   tau_nu transfer_init = 0 \<and>
   Tau_Nu (layer_contributions (solve_transfer notebook_constants [high_layer]) ! 0) < 0 \<and>
   tau_nu (solve_transfer notebook_constants [high_layer]) < tau_nu transfer_init"
proof -
  have "delta_tau_of [high_layer] 0 < 0"
    using high_layer_physical(1)
    by (simp add: delta_tau_of_def delta_z_def high_layer_altitude)
  then have "tau_nu (transfer_upto notebook_constants [high_layer] (Suc 0)) < 0"
    by (simp add: tau_step transfer_upto_0 transfer_init_def)
  then show ?thesis using high_layer_physical(1)
    by (simp add: solve_transfer_def layers_sorted_def radiative_transfer_def
          contributions_nth [of 0 "Suc 0"] transfer_init_def)
qed

text \<open>
  Claim C8. For a positive transition frequency (the bandwidth of 1 percent of it and the
  solid angle \<open>2 * pi\<close> are then positive as well) a radiance of 0 gives a photon flux
  density and a total photon flux of 0, and no division by zero.
\<close>

theorem zero_radiance_zero_flux:
  assumes "0 < h K" "0 < frequency K"
  shows "photon_flux_density K 0 = Inr 0 \<and> photon_flux K 0 = Inr 0"
  using assms by (simp add: photon_flux_def photon_flux_density_def)

text \<open>The constants of the notebook.\<close>

theorem zero_radiance_zero_flux_witness:
  "0 < h notebook_constants \<and> 0 < frequency notebook_constants \<and>
   photon_flux notebook_constants 0 = Inr 0"
proof -
  have K: "0 < h notebook_constants" "0 < frequency notebook_constants"
    by (simp_all add: notebook_constants_def frequency_def)
  from zero_radiance_zero_flux [OF K] K show ?thesis by simp
qed




section \<open>Properties of binary64 rounding\<close>

subsection \<open>Rounding to the nearest integer and powers of two\<close>

lemma rne_cases: "rne y = \<lfloor>y\<rfloor> \<or> rne y = \<lfloor>y\<rfloor> + 1"
  by (simp add: rne_def Let_def)

lemma rne_error: "\<bar>of_int (rne y) - y\<bar> \<le> 1 / 2"
proof -
  have "of_int \<lfloor>y\<rfloor> \<le> y" "y < of_int \<lfloor>y\<rfloor> + 1" by linarith+
  then show ?thesis by (simp add: rne_def Let_def)
qed

lemma rne_of_int [simp]: "rne (of_int n) = n"
  by (simp add: rne_def Let_def)

lemma rne_mono: "x \<le> y \<Longrightarrow> rne x \<le> rne y"
proof -
  assume xy: "x \<le> y"
  then have f: "\<lfloor>x\<rfloor> \<le> \<lfloor>y\<rfloor>" by (rule floor_mono)
  show ?thesis
  proof (cases "\<lfloor>x\<rfloor> = \<lfloor>y\<rfloor>")
    case True
    then have "x - of_int \<lfloor>x\<rfloor> \<le> y - of_int \<lfloor>y\<rfloor>" using xy by simp
    then show ?thesis using True by (auto simp: rne_def Let_def)
  next
    case False
    with f have "\<lfloor>x\<rfloor> + 1 \<le> \<lfloor>y\<rfloor>" by simp
    moreover have "rne x \<le> \<lfloor>x\<rfloor> + 1" using rne_cases [of x] by auto
    moreover have "\<lfloor>y\<rfloor> \<le> rne y" using rne_cases [of y] by auto
    ultimately show ?thesis by linarith
  qed
qed

lemma rne_lower: "of_int n \<le> y \<Longrightarrow> n \<le> rne y"
  using rne_mono [of "of_int n" y] by simp

lemma rne_upper: "y \<le> of_int n \<Longrightarrow> rne y \<le> n"
  using rne_mono [of y "of_int n"] by simp

lemma rne_zero: "\<bar>y\<bar> < 1 / 2 \<Longrightarrow> rne y = 0"
proof -
  assume a: "\<bar>y\<bar> < 1 / 2"
  have "\<bar>of_int (rne y) - y\<bar> \<le> 1 / 2" by (rule rne_error)
  with a have "\<bar>real_of_int (rne y)\<bar> < 1" by linarith
  then show ?thesis by linarith
qed

lemma rne_minus: "rne (- y) = - rne y"
proof (cases "y = of_int \<lfloor>y\<rfloor>")
  case True
  then obtain n where "y = of_int n" ..
  then have "- y = of_int (- n)" by simp
  then show ?thesis using \<open>y = of_int n\<close> by (simp only: rne_of_int)
next
  case False
  then have lt: "of_int \<lfloor>y\<rfloor> < y" by linarith
  have fl: "\<lfloor>- y\<rfloor> = - \<lfloor>y\<rfloor> - 1"
  proof (rule floor_unique)
    show "of_int (- \<lfloor>y\<rfloor> - 1) \<le> - y" by simp linarith
    show "- y < of_int (- \<lfloor>y\<rfloor> - 1) + 1" using lt by simp
  qed
  have ev: "even (- \<lfloor>y\<rfloor> - 1) \<longleftrightarrow> odd \<lfloor>y\<rfloor>" by simp
  show ?thesis
    unfolding rne_def Let_def fl using ev by (auto simp: field_simps)
qed

lemma pow2_pos [simp]: "0 < pow2 e"
  by (simp add: pow2_def)

lemma pow2_nonneg [simp]: "0 \<le> pow2 e"
  by (simp add: pow2_def)

lemma pow2_neq0 [simp]: "pow2 e \<noteq> 0"
  by (simp add: pow2_def)

lemma of_int_abs_less: "\<bar>m\<bar> < (n::int) \<longleftrightarrow> \<bar>real_of_int m\<bar> < real_of_int n"
  by linarith

lemma pow2_add: "pow2 (a + b) = pow2 a * pow2 b"
  by (simp add: pow2_def powr_add)

lemma pow2_0 [simp]: "pow2 0 = 1"
  by (simp add: pow2_def)

lemma pow2_nat: "pow2 (int n) = 2 ^ n"
  by (simp add: pow2_def powr_realpow)

lemma pow2_minus: "pow2 (- e) = 1 / pow2 e"
  by (simp add: pow2_def powr_minus inverse_eq_divide)

lemma pow2_numeral [simp]:
  "pow2 (numeral n) = 2 ^ numeral n"
  "pow2 (- numeral n) = 1 / 2 ^ numeral n"
  "pow2 1 = 2" "pow2 (- 1) = 1 / 2"
  by (simp_all add: pow2_def powr_minus inverse_eq_divide)

lemma pow2_mono: "a \<le> b \<Longrightarrow> pow2 a \<le> pow2 b"
  by (simp add: pow2_def)

lemma pow2_strict_mono: "a < b \<Longrightarrow> pow2 a < pow2 b"
  by (simp add: pow2_def)

lemma pow2_diff: "pow2 (a - b) = pow2 a / pow2 b"
  using pow2_add [of a "- b"] by (simp add: pow2_minus)

lemma pow2_int: "0 \<le> e \<Longrightarrow> pow2 e = of_int (2 ^ nat e)"
  using pow2_nat [of "nat e"] by simp

lemma floor_log_bounds:
  assumes "0 < x"
  shows "pow2 \<lfloor>log 2 x\<rfloor> \<le> x" "x < pow2 (\<lfloor>log 2 x\<rfloor> + 1)"
  using floor_log_eq_powr_iff [of x 2 "\<lfloor>log 2 x\<rfloor>"] assms
  by (simp_all add: pow2_def)

lemma floor_log_unique:
  assumes "pow2 L \<le> x" "x < pow2 (L + 1)"
  shows "\<lfloor>log 2 x\<rfloor> = L"
proof -
  have "0 < x" using assms(1) pow2_pos [of L] by linarith
  then show ?thesis
    using floor_log_eq_powr_iff [of x 2 L] assms by (simp add: pow2_def)
qed

lemma floor_log_mono: "0 < x \<Longrightarrow> x \<le> y \<Longrightarrow> \<lfloor>log 2 x\<rfloor> \<le> \<lfloor>log 2 y\<rfloor>"
  by (intro floor_mono) simp

lemma pow2_less_cancel: "pow2 a < pow2 b \<Longrightarrow> a < b"
  by (simp add: pow2_def)

lemma ulp_exponent_minus [simp]: "ulp_exponent (- x) = ulp_exponent x"
  by (simp add: ulp_exponent_def)

lemma round64_0 [simp]: "round64 0 = 0"
  by (simp add: round64_def)

lemma round64_minus: "round64 (- x) = - round64 x"
  by (simp add: round64_def rne_minus)

lemma round64_nonneg: "0 \<le> x \<Longrightarrow> 0 \<le> round64 x"
proof -
  assume "0 \<le> x"
  then have "0 \<le> x / pow2 (ulp_exponent x)" by simp
  then have "0 \<le> rne (x / pow2 (ulp_exponent x))" using rne_lower [of 0] by simp
  then show ?thesis by (simp add: round64_def)
qed

lemma round64_nonpos: "x \<le> 0 \<Longrightarrow> round64 x \<le> 0"
  using round64_nonneg [of "- x"] by (simp add: round64_minus)

subsection \<open>Rounding to 53 bits: monotonicity, error bounds, representable numbers\<close>

lemma ulp_exponent_eq:
  assumes "pow2 L \<le> \<bar>x\<bar>" "\<bar>x\<bar> < pow2 (L + 1)"
  shows "ulp_exponent x = max (L - 52) (- 1074)"
  using floor_log_unique [OF assms] by (simp add: ulp_exponent_def)

lemma round64_eval:
  assumes "pow2 L \<le> \<bar>x\<bar>" "\<bar>x\<bar> < pow2 (L + 1)" "- 1022 \<le> L"
  shows "round64 x = of_int (rne (x / pow2 (L - 52))) * pow2 (L - 52)"
proof -
  have "x \<noteq> 0"
  proof
    assume "x = 0"
    with assms(1) have "pow2 L \<le> 0" by simp
    with pow2_pos [of L] show False by linarith
  qed
  moreover have "ulp_exponent x = L - 52"
    using ulp_exponent_eq [OF assms(1,2)] assms(3) by simp
  ultimately show ?thesis by (simp add: round64_def)
qed

lemma round64_ge_pow2:
  assumes "0 < y" "L = \<lfloor>log 2 y\<rfloor>" "- 1022 \<le> L"
  shows "pow2 L \<le> round64 y"
proof -
  have b: "pow2 L \<le> y" "y < pow2 (L + 1)"
    using floor_log_bounds [OF assms(1)] assms(2) by simp_all
  have y: "\<bar>y\<bar> = y" using assms(1) by simp
  have r: "round64 y = of_int (rne (y / pow2 (L - 52))) * pow2 (L - 52)"
    using round64_eval [of L y] b assms(3) y by simp
  have "pow2 L / pow2 (L - 52) \<le> y / pow2 (L - 52)"
    using b(1) by (simp add: divide_right_mono)
  moreover have "pow2 L / pow2 (L - 52) = of_int (2 ^ 52)"
    using pow2_diff [of L "L - 52"] by simp
  ultimately have "2 ^ 52 \<le> rne (y / pow2 (L - 52))"
    by (intro rne_lower) simp
  then have "real_of_int (2 ^ 52) \<le> real_of_int (rne (y / pow2 (L - 52)))"
    by (simp only: of_int_le_iff)
  then have "real_of_int (2 ^ 52) * pow2 (L - 52) \<le> round64 y"
    unfolding r by (rule mult_right_mono) simp
  moreover have "real_of_int (2 ^ 52) * pow2 (L - 52) = pow2 L"
    using pow2_add [of 52 "L - 52"] by simp
  ultimately show ?thesis by simp
qed

lemma round64_le_pow2:
  assumes "0 < x" "L = \<lfloor>log 2 x\<rfloor>"
  shows "round64 x \<le> pow2 (L + 1)"
proof -
  define e where "e = ulp_exponent x"
  have b: "pow2 L \<le> x" "x < pow2 (L + 1)"
    using floor_log_bounds [OF assms(1)] assms(2) by simp_all
  have x0: "x \<noteq> 0" using assms by simp
  have r: "round64 x = of_int (rne (x / pow2 e)) * pow2 e"
    using x0 by (simp add: round64_def e_def)
  have lt: "x / pow2 e < pow2 (L + 1 - e)"
    using b(2) by (simp add: pow2_diff divide_strict_right_mono)
  show ?thesis
  proof (cases "e \<le> L + 1")
    case True
    then have p: "pow2 (L + 1 - e) = of_int (2 ^ nat (L + 1 - e))"
      by (intro pow2_int) simp
    with lt have "rne (x / pow2 e) \<le> 2 ^ nat (L + 1 - e)"
      by (intro rne_upper) simp
    then have "real_of_int (rne (x / pow2 e)) \<le> real_of_int (2 ^ nat (L + 1 - e))"
      by (simp only: of_int_le_iff)
    then have "real_of_int (rne (x / pow2 e)) \<le> pow2 (L + 1 - e)"
      by (simp only: p)
    then have "real_of_int (rne (x / pow2 e)) * pow2 e \<le> pow2 (L + 1 - e) * pow2 e"
      by (rule mult_right_mono) simp
    also have "\<dots> = pow2 (L + 1)" using pow2_add [of "L + 1 - e" e] by simp
    finally show ?thesis by (simp only: r)
  next
    case False
    then have "L + 1 - e \<le> - 1" by simp
    then have "pow2 (L + 1 - e) \<le> pow2 (- 1)" by (rule pow2_mono)
    then have "pow2 (L + 1 - e) \<le> 1 / 2" by simp
    with lt have "x / pow2 e < 1 / 2" by linarith
    moreover have "0 \<le> x / pow2 e" using assms by simp
    ultimately have "\<bar>x / pow2 e\<bar> < 1 / 2" by linarith
    then have "rne (x / pow2 e) = 0" by (rule rne_zero)
    then show ?thesis by (simp add: r)
  qed
qed

lemma round64_mono_pos:
  assumes "0 < x" "x \<le> y"
  shows "round64 x \<le> round64 y"
proof -
  define Lx where "Lx = \<lfloor>log 2 x\<rfloor>"
  define Ly where "Ly = \<lfloor>log 2 y\<rfloor>"
  have y: "0 < y" using assms by simp
  have LL: "Lx \<le> Ly" unfolding Lx_def Ly_def using assms by (rule floor_log_mono)
  have ex: "ulp_exponent x = max (Lx - 52) (- 1074)"
    and ey: "ulp_exponent y = max (Ly - 52) (- 1074)"
    using assms(1) y by (simp_all add: ulp_exponent_def Lx_def Ly_def)
  show ?thesis
  proof (cases "ulp_exponent x = ulp_exponent y")
    case True
    define e where "e = ulp_exponent y"
    have "x / pow2 e \<le> y / pow2 e" using assms(2) by (simp add: divide_right_mono)
    then have "rne (x / pow2 e) \<le> rne (y / pow2 e)" by (rule rne_mono)
    then have "real_of_int (rne (x / pow2 e)) \<le> real_of_int (rne (y / pow2 e))"
      by (simp only: of_int_le_iff)
    then have "real_of_int (rne (x / pow2 e)) * pow2 e
        \<le> real_of_int (rne (y / pow2 e)) * pow2 e"
      by (rule mult_right_mono) simp
    then show ?thesis using True assms y by (simp add: round64_def e_def)
  next
    case False
    with ex ey LL have L: "Lx + 1 \<le> Ly" "- 1022 \<le> Ly" by linarith+
    have "round64 x \<le> pow2 (Lx + 1)" using assms(1) Lx_def by (rule round64_le_pow2)
    also have "\<dots> \<le> pow2 Ly" using L(1) by (rule pow2_mono)
    also have "\<dots> \<le> round64 y" using y Ly_def L(2) by (rule round64_ge_pow2)
    finally show ?thesis .
  qed
qed

lemma round64_mono: "x \<le> y \<Longrightarrow> round64 x \<le> round64 y"
proof -
  assume xy: "x \<le> y"
  consider "0 < x" | "x \<le> 0" "0 \<le> y" | "y < 0" by linarith
  then show ?thesis
  proof cases
    case 1
    then show ?thesis using xy by (rule round64_mono_pos)
  next
    case 2
    then show ?thesis using round64_nonpos [of x] round64_nonneg [of y] by simp
  next
    case 3
    then have "0 < - y" "- y \<le> - x" using xy by simp_all
    then have "round64 (- y) \<le> round64 (- x)" by (rule round64_mono_pos)
    then show ?thesis by (simp add: round64_minus)
  qed
qed

lemma round64_error: "\<bar>round64 x - x\<bar> \<le> pow2 (ulp_exponent x) / 2"
proof (cases "x = 0")
  case True
  then show ?thesis by simp
next
  case False
  let ?e = "ulp_exponent x"
  have "round64 x - x = (of_int (rne (x / pow2 ?e)) - x / pow2 ?e) * pow2 ?e"
    using False by (simp add: round64_def field_simps)
  then have "\<bar>round64 x - x\<bar> = \<bar>of_int (rne (x / pow2 ?e)) - x / pow2 ?e\<bar> * pow2 ?e"
    by (simp add: abs_mult)
  also have "\<dots> \<le> 1 / 2 * pow2 ?e"
    by (intro mult_right_mono rne_error) simp
  finally show ?thesis by simp
qed

lemma round64_relative:
  assumes "pow2 (- 1022) \<le> \<bar>x\<bar>"
  shows "\<bar>round64 x - x\<bar> \<le> \<bar>x\<bar> / 2 ^ 53"
proof -
  have pos: "0 < \<bar>x\<bar>" using assms pow2_pos [of "- 1022"] by linarith
  define L where "L = \<lfloor>log 2 \<bar>x\<bar>\<rfloor>"
  have b: "pow2 L \<le> \<bar>x\<bar>" "\<bar>x\<bar> < pow2 (L + 1)"
    using floor_log_bounds [OF pos] by (simp_all add: L_def)
  have "pow2 (- 1022) < pow2 (L + 1)" using assms b(2) by linarith
  then have "- 1022 < L + 1" by (rule pow2_less_cancel)
  then have e: "ulp_exponent x = L - 52" by (simp add: ulp_exponent_def L_def [symmetric])
  have "pow2 (L - 52) = pow2 L / 2 ^ 52" using pow2_diff [of L 52] by simp
  with round64_error [of x] e have "\<bar>round64 x - x\<bar> \<le> pow2 L / 2 ^ 52 / 2" by simp
  also have "\<dots> = pow2 L / 2 ^ 53" by simp
  also have "\<dots> \<le> \<bar>x\<bar> / 2 ^ 53" using b(1) by (simp add: divide_right_mono)
  finally show ?thesis .
qed

lemma round64_underflow:
  assumes "\<bar>x\<bar> < pow2 (- 1075)"
  shows "round64 x = 0"
proof (cases "x = 0")
  case True
  then show ?thesis by simp
next
  case False
  then have pos: "0 < \<bar>x\<bar>" by simp
  define L where "L = \<lfloor>log 2 \<bar>x\<bar>\<rfloor>"
  have b: "pow2 L \<le> \<bar>x\<bar>" "\<bar>x\<bar> < pow2 (L + 1)"
    using floor_log_bounds [OF pos] by (simp_all add: L_def)
  have "pow2 L < pow2 (- 1075)" using assms b(1) by linarith
  then have "L < - 1075" by (rule pow2_less_cancel)
  then have e: "ulp_exponent x = - 1074" by (simp add: ulp_exponent_def L_def [symmetric])
  have "\<bar>x / pow2 (- 1074)\<bar> = \<bar>x\<bar> / pow2 (- 1074)" by simp
  also have "\<dots> < pow2 (- 1075) / pow2 (- 1074)"
    using assms by (intro divide_strict_right_mono) simp_all
  also have "\<dots> = 1 / 2" using pow2_diff [of "- 1075" "- 1074"] by simp
  finally have "rne (x / pow2 (- 1074)) = 0" by (rule rne_zero)
  then show ?thesis using False e by (simp add: round64_def)
qed

lemma round64_representable:
  assumes "x = of_int m * pow2 e" "\<bar>m\<bar> < 2 ^ 53" "- 1074 \<le> e"
  shows "round64 x = x"
proof (cases "x = 0")
  case True
  then show ?thesis by simp
next
  case False
  then have pos: "0 < \<bar>x\<bar>" by simp
  define L where "L = \<lfloor>log 2 \<bar>x\<bar>\<rfloor>"
  define u where "u = ulp_exponent x"
  have b: "pow2 L \<le> \<bar>x\<bar>" "\<bar>x\<bar> < pow2 (L + 1)"
    using floor_log_bounds [OF pos] by (simp_all add: L_def)
  have m: "\<bar>real_of_int m\<bar> < 2 ^ 53"
    using assms(2) of_int_abs_less [of m "2 ^ 53"] by simp
  have "\<bar>x\<bar> = \<bar>of_int m\<bar> * pow2 e" using assms(1) by (simp add: abs_mult)
  also have "\<dots> < 2 ^ 53 * pow2 e"
    using m by (rule mult_strict_right_mono) simp
  also have "\<dots> = pow2 (53 + e)" using pow2_add [of 53 e] by simp
  finally have "pow2 L < pow2 (53 + e)" using b(1) by linarith
  then have "L < 53 + e" by (rule pow2_less_cancel)
  moreover have "u = max (L - 52) (- 1074)" by (simp add: u_def ulp_exponent_def L_def)
  ultimately have u: "u \<le> e" using assms(3) by linarith
  then have p: "pow2 (e - u) = of_int (2 ^ nat (e - u))" by (intro pow2_int) simp
  have "x / pow2 u = of_int m * pow2 (e - u)"
    using assms(1) by (simp add: pow2_diff)
  also have "\<dots> = of_int (m * 2 ^ nat (e - u))" by (simp only: p of_int_mult)
  finally have q: "x / pow2 u = of_int (m * 2 ^ nat (e - u))" .
  then have "rne (x / pow2 u) = m * 2 ^ nat (e - u)" by (simp only: rne_of_int)
  then have "round64 x = of_int (m * 2 ^ nat (e - u)) * pow2 u"
    using False by (simp add: round64_def u_def)
  also have "\<dots> = x / pow2 u * pow2 u" by (simp only: q)
  also have "\<dots> = x" by simp
  finally show ?thesis .
qed

lemma round64_grid: "\<exists>k. round64 x = of_int k * pow2 (- 1074)"
proof (cases "x = 0")
  case True
  then show ?thesis by (intro exI [of _ 0]) simp
next
  case False
  let ?u = "ulp_exponent x"
  have "- 1074 \<le> ?u" by (simp add: ulp_exponent_def)
  then have "pow2 (?u + 1074) = of_int (2 ^ nat (?u + 1074))" by (intro pow2_int) simp
  moreover have "pow2 ?u = pow2 (?u + 1074) * pow2 (- 1074)"
    using pow2_add [of "?u + 1074" "- 1074"] by simp
  ultimately have "round64 x
      = of_int (rne (x / pow2 ?u) * 2 ^ nat (?u + 1074)) * pow2 (- 1074)"
    using False by (simp add: round64_def)
  then show ?thesis ..
qed

lemma round64_small_grid:
  assumes "x = of_int k * pow2 (- 1074)" "\<bar>x\<bar> < pow2 (- 1022)"
  shows "round64 x = x"
proof -
  have "\<bar>of_int k\<bar> * pow2 (- 1074) < pow2 (- 1022)"
    using assms by (simp add: abs_mult)
  then have "\<bar>real_of_int k\<bar> < pow2 (- 1022) / pow2 (- 1074)"
    by (simp add: pos_less_divide_eq)
  also have "\<dots> = 2 ^ 52" using pow2_diff [of "- 1022" "- 1074"] by simp
  finally have "\<bar>real_of_int k\<bar> < 2 ^ 53" by simp
  then have "\<bar>k\<bar> < 2 ^ 53" using of_int_abs_less [of k "2 ^ 53"] by simp
  from round64_representable [OF assms(1) this] show ?thesis by simp
qed

lemma round64_sum_relative:
  assumes "round64 a = a" "round64 b = b"
  shows "\<bar>round64 (a + b) - (a + b)\<bar> \<le> \<bar>a + b\<bar> / 2 ^ 53"
proof (cases "pow2 (- 1022) \<le> \<bar>a + b\<bar>")
  case True
  then show ?thesis by (rule round64_relative)
next
  case False
  from round64_grid [of a] round64_grid [of b] assms
  obtain ka kb where "a = of_int ka * pow2 (- 1074)" "b = of_int kb * pow2 (- 1074)"
    by metis
  then have "a + b = of_int (ka + kb) * pow2 (- 1074)" by (simp add: algebra_simps)
  from round64_small_grid [OF this] False show ?thesis by simp
qed

declare pow2_numeral [simp del]

lemma round64_1 [simp]: "round64 1 = 1"
  using round64_representable [of 1 1 0] by simp

lemma round64_le_1: "x \<le> 1 \<Longrightarrow> round64 x \<le> 1"
  using round64_mono [of x 1] by simp

lemma round64_pow2: "- 1074 \<le> e \<Longrightarrow> round64 (pow2 e) = pow2 e"
  using round64_representable [of "pow2 e" 1 e] by simp

lemma fl_finite:
  assumes "\<bar>x\<bar> \<le> pow2 1023"
  shows "fl x = Finite (round64 x)"
proof -
  have p: "round64 (pow2 1023) = pow2 1023" by (rule round64_pow2) simp
  have "round64 x \<le> round64 (pow2 1023)" using assms by (intro round64_mono) simp
  moreover have "round64 (- pow2 1023) \<le> round64 x" using assms by (intro round64_mono) simp
  ultimately have "round64 x \<le> pow2 1023" "- pow2 1023 \<le> round64 x"
    by (simp_all add: p round64_minus)
  moreover have "pow2 1023 < pow2 1024" by (rule pow2_strict_mono) simp
  ultimately show ?thesis unfolding fl_def Let_def by simp
qed

lemma fl_nonneg:
  assumes "0 \<le> x"
  shows "fl x = PInf \<or> (fl x = Finite (round64 x) \<and> 0 \<le> round64 x \<and> round64 x < pow2 1024)"
proof (cases "pow2 1024 \<le> round64 x")
  case True
  then show ?thesis by (simp add: fl_def Let_def)
next
  case False
  have p: "0 < pow2 1024" by simp
  have r: "0 \<le> round64 x" using assms by (rule round64_nonneg)
  from p r have "\<not> round64 x \<le> - pow2 1024" by linarith
  with False r show ?thesis by (simp add: fl_def Let_def)
qed

lemma fl_nonpos:
  assumes "x \<le> 0"
  shows "fl x = NInf \<or> (fl x = Finite (round64 x) \<and> round64 x \<le> 0 \<and> - pow2 1024 < round64 x)"
proof (cases "round64 x \<le> - pow2 1024")
  case True
  have p: "0 < pow2 1024" by simp
  have r: "round64 x \<le> 0" using assms by (rule round64_nonpos)
  from p r have "\<not> pow2 1024 \<le> round64 x" by linarith
  with True show ?thesis by (simp add: fl_def Let_def)
next
  case False
  have p: "0 < pow2 1024" by simp
  have r: "round64 x \<le> 0" using assms by (rule round64_nonpos)
  from p r have "\<not> pow2 1024 \<le> round64 x" by linarith
  with False r show ?thesis by (simp add: fl_def Let_def)
qed

lemma one_le_pow2: "0 \<le> e \<Longrightarrow> 1 \<le> pow2 e"
  using pow2_mono [of 0 e] by simp

lemma fl_unit:
  assumes "0 \<le> x" "x \<le> 1"
  shows "fl x = Finite (round64 x) \<and> 0 \<le> round64 x \<and> round64 x \<le> 1"
proof -
  have "1 \<le> pow2 1023" by (rule one_le_pow2) simp
  with assms have "\<bar>x\<bar> \<le> pow2 1023" by simp
  then have "fl x = Finite (round64 x)" by (rule fl_finite)
  then show ?thesis using round64_nonneg [OF assms(1)] round64_le_1 [OF assms(2)] by simp
qed

lemma round64_bounds:
  assumes "pow2 (- 1022) \<le> x"
  shows "x * (1 - 1 / 2 ^ 53) \<le> round64 x" "round64 x \<le> x * (1 + 1 / 2 ^ 53)"
proof -
  have "0 < x" using assms pow2_pos [of "- 1022"] by linarith
  then have "\<bar>x\<bar> = x" by simp
  with round64_relative [of x] assms have d: "\<bar>round64 x - x\<bar> \<le> x / 2 ^ 53" by simp
  have e: "x * (1 - 1 / 2 ^ 53) = x - x / 2 ^ 53" "x * (1 + 1 / 2 ^ 53) = x + x / 2 ^ 53"
    by (simp_all add: algebra_simps)
  from d show "x * (1 - 1 / 2 ^ 53) \<le> round64 x" unfolding e by linarith
  from d show "round64 x \<le> x * (1 + 1 / 2 ^ 53)" unfolding e by linarith
qed

lemma fl_between:
  assumes "pow2 (- 1022) \<le> lo" "lo \<le> x" "x \<le> hi" "hi \<le> pow2 1023"
    and "lo' \<le> lo * (1 - 1 / 2 ^ 53)" "hi * (1 + 1 / 2 ^ 53) \<le> hi'"
  shows "\<exists>r. fl x = Finite r \<and> lo' \<le> r \<and> r \<le> hi'"
proof -
  have x: "pow2 (- 1022) \<le> x" using assms by linarith
  have pos: "0 < x" using x pow2_pos [of "- 1022"] by linarith
  then have "\<bar>x\<bar> \<le> pow2 1023" using assms by simp
  then have f: "fl x = Finite (round64 x)" by (rule fl_finite)
  note b = round64_bounds [OF x]
  have "lo * (1 - 1 / 2 ^ 53) \<le> x * (1 - 1 / 2 ^ 53)"
    using assms(2) by (intro mult_right_mono) simp_all
  moreover have "x * (1 + 1 / 2 ^ 53) \<le> hi * (1 + 1 / 2 ^ 53)"
    using assms(3) by (intro mult_right_mono) simp_all
  ultimately have "lo' \<le> round64 x" "round64 x \<le> hi'" using b assms(5,6) by linarith+
  with f show ?thesis by blast
qed

lemma rne_nearest:
  assumes "\<bar>y - of_int n\<bar> < 1 / 2"
  shows "rne y = n"
proof -
  have "\<bar>of_int (rne y) - y\<bar> \<le> 1 / 2" by (rule rne_error)
  with assms have "\<bar>real_of_int (rne y) - real_of_int n\<bar> < 1" by linarith
  then have "\<bar>real_of_int (rne y - n)\<bar> < 1" by simp
  then have "rne y - n = 0" by linarith
  then show ?thesis by simp
qed

lemma fl_eval:
  assumes "pow2 L \<le> \<bar>x\<bar>" "\<bar>x\<bar> < pow2 (L + 1)" "- 1022 \<le> L" "L \<le> 1022"
    and "\<bar>x / pow2 (L - 52) - of_int n\<bar> < 1 / 2"
  shows "fl x = Finite (of_int n * pow2 (L - 52))"
proof -
  have "pow2 (L + 1) \<le> pow2 1023" using assms(4) by (intro pow2_mono) simp
  with assms(2) have "\<bar>x\<bar> \<le> pow2 1023" by linarith
  then have "fl x = Finite (round64 x)" by (rule fl_finite)
  moreover have "round64 x = of_int (rne (x / pow2 (L - 52))) * pow2 (L - 52)"
    using assms(1-3) by (rule round64_eval)
  moreover have "rne (x / pow2 (L - 52)) = n" using assms(5) by (rule rne_nearest)
  ultimately show ?thesis by simp
qed

lemma round64_error_mixed: "\<bar>round64 x - x\<bar> \<le> \<bar>x\<bar> / 2 ^ 53 + pow2 (- 1075)"
proof (cases "pow2 (- 1022) \<le> \<bar>x\<bar>")
  case True
  from round64_relative [OF this] pow2_pos [of "- 1075"] show ?thesis by linarith
next
  case False
  show ?thesis
  proof (cases "x = 0")
    case True
    then show ?thesis by simp
  next
    case nz: False
    then have pos: "0 < \<bar>x\<bar>" by simp
    define L where "L = \<lfloor>log 2 \<bar>x\<bar>\<rfloor>"
    have "pow2 L \<le> \<bar>x\<bar>" using floor_log_bounds [OF pos] by (simp add: L_def)
    with False have "pow2 L < pow2 (- 1022)" by linarith
    then have "L < - 1022" by (rule pow2_less_cancel)
    then have e: "ulp_exponent x = - 1074" by (simp add: ulp_exponent_def L_def [symmetric])
    have "pow2 (- 1074) / 2 = pow2 (- 1075)"
      using pow2_diff [of "- 1074" 1] by (simp add: pow2_numeral)
    with round64_error [of x] e have "\<bar>round64 x - x\<bar> \<le> pow2 (- 1075)" by simp
    moreover have "0 \<le> \<bar>x\<bar> / 2 ^ 53" by simp
    ultimately show ?thesis by linarith
  qed
qed

lemma unit_sum_bound:
  fixes w p q u c :: real
  assumes u: "u = 1 / 2 ^ 53" and c: "0 \<le> c" "2 * c \<le> u"
    and w: "w * (1 - u) \<le> 1" "1 \<le> w * (1 + u)" "0 \<le> w"
    and pq: "p + q \<le> w * (1 + u) + 2 * c" "w * (1 - u) - 2 * c \<le> p + q"
  shows "\<bar>p + q - 1\<bar> \<le> 1 / 2 ^ 51"
proof -
  have u0: "0 < u" "u < 1 / 4" by (simp_all add: u)
  have d: "0 < 1 - u" "0 < 1 + u" using u0 by simp_all
  have "w * (1 - u) * (1 + u) \<le> 1 * (1 + u)" using w(1) d by (intro mult_right_mono) simp_all
  then have "w * (1 + u) * (1 - u) \<le> 1 + u" by (simp add: mult_ac)
  then have up: "w * (1 + u) \<le> (1 + u) / (1 - u)"
    using d(1) by (simp only: pos_le_divide_eq)
  have "1 * (1 - u) \<le> w * (1 + u) * (1 - u)" using w(2) d by (intro mult_right_mono) simp_all
  then have "1 - u \<le> w * (1 - u) * (1 + u)" by (simp add: mult_ac)
  then have lo: "(1 - u) / (1 + u) \<le> w * (1 - u)"
    using d(2) by (simp only: pos_divide_le_eq)
  have n1: "(1 + u) / (1 - u) + u \<le> 1 + 4 * u" by (simp add: u)
  have n2: "1 - 4 * u \<le> (1 - u) / (1 + u) - u" by (simp add: u)
  have "p + q \<le> 1 + 4 * u" using pq(1) up n1 c by linarith
  moreover have "1 - 4 * u \<le> p + q" using pq(2) lo n2 c by linarith
  moreover have "4 * u = 1 / 2 ^ 51" by (simp add: u)
  ultimately have "p + q - 1 \<le> 1 / 2 ^ 51" "- (1 / 2 ^ 51) \<le> p + q - 1" by linarith+
  then show ?thesis unfolding abs_le_iff by linarith
qed

lemma rel_error_bounds:
  fixes r x :: real
  assumes "\<bar>r - x\<bar> \<le> x / 2 ^ 53"
  shows "x * (1 - 1 / 2 ^ 53) \<le> r" "r \<le> x * (1 + 1 / 2 ^ 53)"
proof -
  have e: "x * (1 - 1 / 2 ^ 53) = x - x / 2 ^ 53" "x * (1 + 1 / 2 ^ 53) = x + x / 2 ^ 53"
    by (simp_all add: algebra_simps)
  from assms show "x * (1 - 1 / 2 ^ 53) \<le> r" unfolding e by linarith
  from assms show "r \<le> x * (1 + 1 / 2 ^ 53)" unfolding e by linarith
qed

lemma mixed_error_bounds:
  fixes r x c :: real
  assumes "\<bar>r - x\<bar> \<le> x / 2 ^ 53 + c"
  shows "x * (1 - 1 / 2 ^ 53) - c \<le> r" "r \<le> x * (1 + 1 / 2 ^ 53) + c"
proof -
  have e: "x * (1 - 1 / 2 ^ 53) = x - x / 2 ^ 53" "x * (1 + 1 / 2 ^ 53) = x + x / 2 ^ 53"
    by (simp_all add: algebra_simps)
  from assms show "x * (1 - 1 / 2 ^ 53) - c \<le> r" unfolding e by linarith
  from assms show "r \<le> x * (1 + 1 / 2 ^ 53) + c" unfolding e by linarith
qed

lemma quotient_stage:
  assumes "0 < a" "a \<le> s"
  shows "div64 (Finite a) (Finite s) = Finite (round64 (a / s))"
    and "0 \<le> round64 (a / s)" and "round64 (a / s) \<le> 1"
    and "round64 (a / s) \<le> a / s * (1 + 1 / 2 ^ 53) + pow2 (- 1075)"
    and "a / s * (1 - 1 / 2 ^ 53) - pow2 (- 1075) \<le> round64 (a / s)"
proof -
  have s: "0 < s" using assms by simp
  have q: "0 \<le> a / s" "a / s \<le> 1" using assms s by simp_all
  from fl_unit [OF q] s show "div64 (Finite a) (Finite s) = Finite (round64 (a / s))"
    and "0 \<le> round64 (a / s)" and "round64 (a / s) \<le> 1" by simp_all
  have "\<bar>round64 (a / s) - a / s\<bar> \<le> \<bar>a / s\<bar> / 2 ^ 53 + pow2 (- 1075)"
    by (rule round64_error_mixed)
  moreover have "\<bar>a / s\<bar> = a / s" using q(1) by (rule abs_of_nonneg)
  ultimately have "\<bar>round64 (a / s) - a / s\<bar> \<le> a / s / 2 ^ 53 + pow2 (- 1075)"
    by (simp only:)
  then show "round64 (a / s) \<le> a / s * (1 + 1 / 2 ^ 53) + pow2 (- 1075)"
    and "a / s * (1 - 1 / 2 ^ 53) - pow2 (- 1075) \<le> round64 (a / s)"
    by (rule mixed_error_bounds)+
qed

lemma unit_part_bound:
  fixes w p t u c :: real
  assumes u: "u = 1 / 2 ^ 53" and c: "0 \<le> c" "2 * c \<le> u"
    and w: "w * (1 - u) \<le> 1" "1 \<le> w * (1 + u)" "0 \<le> w"
    and t: "0 \<le> t" "t \<le> 1"
    and p: "p \<le> t * w * (1 + u) + c" "t * w * (1 - u) - c \<le> p"
  shows "\<bar>p - t\<bar> \<le> 1 / 2 ^ 51"
proof -
  have u0: "0 < u" "u < 1 / 4" by (simp_all add: u)
  have d: "0 < 1 - u" "0 < 1 + u" using u0 by simp_all
  have "w * (1 - u) * (1 + u) \<le> 1 * (1 + u)" using w(1) d by (intro mult_right_mono) simp_all
  then have "w * (1 + u) * (1 - u) \<le> 1 + u" by (simp add: mult_ac)
  then have up: "w * (1 + u) \<le> (1 + u) / (1 - u)"
    using d(1) by (simp only: pos_le_divide_eq)
  have "1 * (1 - u) \<le> w * (1 + u) * (1 - u)" using w(2) d by (intro mult_right_mono) simp_all
  then have "1 - u \<le> w * (1 - u) * (1 + u)" by (simp add: mult_ac)
  then have lo: "(1 - u) / (1 + u) \<le> w * (1 - u)"
    using d(2) by (simp only: pos_divide_le_eq)
  have n1: "(1 + u) / (1 - u) \<le> 1 + 3 * u" by (simp add: u)
  have n2: "1 - 3 * u \<le> (1 - u) / (1 + u)" by (simp add: u)
  have "t * (w * (1 + u)) \<le> t * (1 + 3 * u)"
    using up n1 t(1) by (intro mult_left_mono) linarith+
  also have "\<dots> = t + 3 * u * t" by (simp add: algebra_simps)
  also have "\<dots> \<le> t + 3 * u * 1" using t(2) u0 by (intro add_left_mono mult_left_mono) simp_all
  finally have hi: "t * w * (1 + u) \<le> t + 3 * u" by (simp add: mult_ac)
  have "t - 3 * u * 1 \<le> t - 3 * u * t"
    using t(2) u0 by (intro diff_left_mono mult_left_mono) simp_all
  also have "\<dots> = t * (1 - 3 * u)" by (simp add: algebra_simps)
  also have "\<dots> \<le> t * (w * (1 - u))"
    using lo n2 t(1) by (intro mult_left_mono) linarith+
  finally have low: "t - 3 * u \<le> t * w * (1 - u)" by (simp add: mult_ac)
  have "p \<le> t + 4 * u" using p(1) hi c u0 by linarith
  moreover have "t - 4 * u \<le> p" using p(2) low c u0 by linarith
  moreover have "4 * u = 1 / 2 ^ 51" by (simp add: u)
  ultimately have "p - t \<le> 1 / 2 ^ 51" "- (1 / 2 ^ 51) \<le> p - t" by linarith+
  then show ?thesis unfolding abs_le_iff by linarith
qed

lemma round64_near_one:
  assumes "\<bar>x - 1\<bar> \<le> 1 / 2 ^ 51"
  shows "\<bar>round64 x - 1\<bar> \<le> 1 / 2 ^ 51"
proof -
  have lo: "round64 (1 - 1 / 2 ^ 51) = 1 - 1 / 2 ^ 51"
    by (rule round64_representable [of _ "2 ^ 53 - 4" "- 53"]) (simp_all add: pow2_numeral)
  have hi: "round64 (1 + 1 / 2 ^ 51) = 1 + 1 / 2 ^ 51"
    by (rule round64_representable [of _ "2 ^ 52 + 2" "- 52"]) (simp_all add: pow2_numeral)
  from assms have "1 - 1 / 2 ^ 51 \<le> x" "x \<le> 1 + 1 / 2 ^ 51" by linarith+
  then have "round64 (1 - 1 / 2 ^ 51) \<le> round64 x" "round64 x \<le> round64 (1 + 1 / 2 ^ 51)"
    by (simp_all only: round64_mono)
  then show ?thesis unfolding lo hi abs_le_iff by linarith
qed

subsection \<open>The Boltzmann factor in binary64\<close>

lemma fl_1 [simp]: "fl 1 = Finite 1"
  using fl_unit [of 1] by simp

lemma exp_stage:
  assumes "0 < e" "0 < m1" "m1 \<le> m2"
  shows "\<exists>b1 b2. exp64 (div64 (Finite (- e)) (Finite m1)) = Finite b1 \<and>
     exp64 (div64 (Finite (- e)) (Finite m2)) = Finite b2 \<and> 0 \<le> b1 \<and> b1 \<le> b2 \<and> b2 \<le> 1"
proof -
  define x1 where "x1 = - e / m1"
  define x2 where "x2 = - e / m2"
  have m2: "0 < m2" using assms by simp
  have x: "x1 \<le> x2" "x2 \<le> 0" "x1 \<le> 0"
    using assms m2 by (simp_all add: x1_def x2_def frac_le)
  have d: "div64 (Finite (- e)) (Finite m1) = fl x1" "div64 (Finite (- e)) (Finite m2) = fl x2"
    using assms m2 by (simp_all add: x1_def x2_def)
  have r: "round64 x1 \<le> round64 x2" using x(1) by (rule round64_mono)
  have unit: "fl (exp y) = Finite (round64 (exp y)) \<and> 0 \<le> round64 (exp y) \<and> round64 (exp y) \<le> 1"
    if "y \<le> 0" for y :: real
    using that by (intro fl_unit) simp_all
  from fl_nonpos [OF x(2)] consider
      (inf) "fl x2 = NInf" "round64 x2 \<le> - pow2 1024"
    | (fin) "fl x2 = Finite (round64 x2)" "round64 x2 \<le> 0" "- pow2 1024 < round64 x2"
    by (auto simp: fl_def Let_def split: if_splits)
  then show ?thesis
  proof cases
    case inf
    with r have "round64 x1 \<le> - pow2 1024" by simp
    moreover have "\<not> pow2 1024 \<le> round64 x1"
      using round64_nonpos [OF x(3)] pow2_pos [of 1024] by linarith
    ultimately have "fl x1 = NInf" by (simp add: fl_def Let_def)
    with inf d show ?thesis by simp
  next
    case fin
    note u2 = unit [OF fin(2)]
    from fl_nonpos [OF x(3)] show ?thesis
    proof
      assume "fl x1 = NInf"
      with fin d u2 show ?thesis by simp
    next
      assume f1: "fl x1 = Finite (round64 x1) \<and> round64 x1 \<le> 0 \<and> - pow2 1024 < round64 x1"
      then have u1: "fl (exp (round64 x1)) = Finite (round64 (exp (round64 x1)))"
        "0 \<le> round64 (exp (round64 x1))"
        using unit [of "round64 x1"] by simp_all
      have "round64 (exp (round64 x1)) \<le> round64 (exp (round64 x2))"
        using r by (intro round64_mono) simp
      with f1 fin d u1 u2 show ?thesis by simp
    qed
  qed
qed

lemma boltzmann_factor64_monotone:
  assumes e: "0 < e" and k: "0 < k" and t: "0 < t1" "t1 \<le> t2"
  shows "\<exists>b1 b2. boltzmann_factor64 (Finite e) (Finite k) (Finite t1) = Finite b1 \<and>
     boltzmann_factor64 (Finite e) (Finite k) (Finite t2) = Finite b2 \<and>
     0 \<le> b1 \<and> b1 \<le> b2 \<and> b2 \<le> 1"
proof -
  define m1 where "m1 = round64 (k * t1)"
  define m2 where "m2 = round64 (k * t2)"
  have kt: "0 \<le> k * t1" "0 \<le> k * t2" "k * t1 \<le> k * t2" using k t by simp_all
  have m: "0 \<le> m1" "m1 \<le> m2"
    unfolding m1_def m2_def using kt by (simp_all add: round64_nonneg round64_mono)
  have top: "exp64 (div64 (Finite (- e)) PInf) = Finite 1" by simp
  have zero: "exp64 (div64 (Finite (- e)) (Finite 0)) = Finite 0" using e by simp
  have bf: "boltzmann_factor64 (Finite e) (Finite k) (Finite t) = exp64 (div64 (Finite (- e)) (fl (k * t)))"
    for t by (simp add: boltzmann_factor64_def)
  from fl_nonneg [OF kt(2)] show ?thesis
  proof
    assume inf2: "fl (k * t2) = PInf"
    from fl_nonneg [OF kt(1)] show ?thesis
    proof
      assume "fl (k * t1) = PInf"
      with inf2 show ?thesis by (simp add: bf)
    next
      assume f1: "fl (k * t1) = Finite (round64 (k * t1)) \<and> 0 \<le> round64 (k * t1)
          \<and> round64 (k * t1) < pow2 1024"
      show ?thesis
      proof (cases "m1 = 0")
        case True
        with f1 inf2 zero show ?thesis by (simp add: bf m1_def)
      next
        case False
        with m have "0 < m1" by simp
        from exp_stage [OF e this order_refl] f1 inf2 show ?thesis
          by (auto simp: bf m1_def)
      qed
    qed
  next
    assume f2: "fl (k * t2) = Finite (round64 (k * t2)) \<and> 0 \<le> round64 (k * t2)
        \<and> round64 (k * t2) < pow2 1024"
    then have "\<not> pow2 1024 \<le> m1" using m by (simp add: m2_def)
    moreover have "\<not> m1 \<le> - pow2 1024" using m(1) pow2_pos [of 1024] by linarith
    ultimately have f1: "fl (k * t1) = Finite m1" by (simp add: fl_def Let_def m1_def)
    show ?thesis
    proof (cases "m1 = 0")
      case True
      have "0 \<le> m2" using m by simp
      then consider "m2 = 0" | "0 < m2" by linarith
      then show ?thesis
      proof cases
        case 1
        with True f1 f2 zero show ?thesis by (simp add: bf m2_def)
      next
        case 2
        from exp_stage [OF e 2 order_refl] True f1 f2 zero show ?thesis
          by (auto simp: bf m2_def)
      qed
    next
      case False
      with m have "0 < m1" by simp
      from exp_stage [OF e this m(2)] f1 f2 show ?thesis
        by (auto simp: bf m2_def)
    qed
  qed
qed

lemma exp_underflow:
  assumes "r \<le> - 800"
  shows "exp r < pow2 (- 1075)"
proof -
  have "(2::real) < 1 + 32 / 43 + (32 / 43)\<^sup>2 / 2" by (simp add: power2_eq_square)
  also have "\<dots> \<le> exp (32 / 43)" by (rule exp_lower_Taylor_quadratic) simp
  finally have "(2::real) ^ 1075 < exp (32 / 43) ^ 1075"
    by (intro power_strict_mono) simp_all
  also have "\<dots> = exp (of_nat 1075 * (32 / 43))" by (rule exp_of_nat_mult [symmetric])
  also have "\<dots> = exp 800" by simp
  finally have "pow2 1075 < exp 800" using pow2_nat [of 1075] by simp
  then have "1 / exp 800 < 1 / pow2 1075"
    by (intro divide_strict_left_mono) simp_all
  moreover have "exp r \<le> exp (- 800)" using assms by simp
  moreover have "exp (- 800 :: real) = 1 / exp 800" by (simp add: exp_minus inverse_eq_divide)
  ultimately show ?thesis by (simp add: pow2_minus)
qed

lemma round64_800: "round64 (- 800) = - 800"
  using round64_representable [of "- 800" "- 800" 0] by simp

lemma boltzmann_factor64_underflow:
  assumes "0 < e" "0 < k" "0 < t"
    and "pow2 (- 1022) \<le> k * t" "k * t \<le> pow2 1023" "850 * (k * t) \<le> e"
  shows "boltzmann_factor64 (Finite e) (Finite k) (Finite t) = Finite 0"
proof -
  define x where "x = k * t"
  define m where "m = round64 x"
  have x: "0 < x" using assms by (simp add: x_def)
  have fx: "fl x = Finite m"
    unfolding m_def using assms(5) x by (intro fl_finite) (simp add: x_def)
  note rb = round64_bounds [OF assms(4)]
  have b: "x * (1 - 1 / 2 ^ 53) \<le> m" "m \<le> x * (1 + 1 / 2 ^ 53)"
    unfolding m_def x_def by (rule rb)+
  have "0 < x * (1 - 1 / 2 ^ 53)" using x by simp
  with b(1) have m: "0 < m" by linarith
  have "x * (1 + 1 / 2 ^ 53) \<le> x * (17 / 16)" using x by (intro mult_left_mono) simp_all
  with b(2) have "m \<le> x * (17 / 16)" by linarith
  then have "800 * m \<le> 850 * x" by simp
  also have "\<dots> \<le> e" using assms(6) by (simp add: x_def)
  finally have "800 \<le> e / m" using m by (simp add: pos_le_divide_eq)
  then have y: "- e / m \<le> - 800" by simp
  then have r: "round64 (- e / m) \<le> - 800"
    using round64_mono [of "- e / m" "- 800"] by (simp add: round64_800)
  have bf: "boltzmann_factor64 (Finite e) (Finite k) (Finite t) = exp64 (fl (- e / m))"
    using fx m by (simp add: boltzmann_factor64_def x_def)
  have "- e / m \<le> 0" using y by linarith
  from fl_nonpos [OF this] show ?thesis
  proof
    assume "fl (- e / m) = NInf"
    then show ?thesis unfolding bf by simp
  next
    assume f: "fl (- e / m) = Finite (round64 (- e / m)) \<and> round64 (- e / m) \<le> 0
        \<and> - pow2 1024 < round64 (- e / m)"
    have "exp (round64 (- e / m)) < pow2 (- 1075)" using r by (rule exp_underflow)
    then have "round64 (exp (round64 (- e / m))) = 0" by (intro round64_underflow) simp
    moreover have "fl (exp (round64 (- e / m))) = Finite (round64 (exp (round64 (- e / m))))"
      using f fl_unit [of "exp (round64 (- e / m))"] by simp
    ultimately show ?thesis using f unfolding bf by simp
  qed
qed

lemma notebook_constants64:
  "\<exists>e k. E_upper64 = Finite e \<and> k_B64 = Finite k \<and>
     125 / 10 ^ 22 \<le> e \<and> e \<le> 141 / 10 ^ 22 \<and> 138 / 10 ^ 25 \<le> k \<and> k \<le> 139 / 10 ^ 25"
proof -
  have small: "pow2 (- 1022) \<le> 1 / 10 ^ 40" "(10::real) ^ 20 \<le> pow2 1023"
    by (simp_all add: pow2_numeral)
  obtain hh where hh: "h64 = Finite hh" "66 / 10 ^ 35 \<le> hh" "hh \<le> 67 / 10 ^ 35"
    unfolding h64_def
    using fl_between [of "6.62607015 / 10 ^ 34" "6.62607015 / 10 ^ 34" "6.62607015 / 10 ^ 34"
        "66 / 10 ^ 35" "67 / 10 ^ 35"] small
    by auto
  obtain kk where kk: "k_B64 = Finite kk" "138 / 10 ^ 25 \<le> kk" "kk \<le> 139 / 10 ^ 25"
    unfolding k_B64_def
    using fl_between [of "1.380649 / 10 ^ 23" "1.380649 / 10 ^ 23" "1.380649 / 10 ^ 23"
        "138 / 10 ^ 25" "139 / 10 ^ 25"] small
    by auto
  obtain cc where cc: "c64 = Finite cc" "299 * 10 ^ 6 \<le> cc" "cc \<le> 3 * 10 ^ 8"
    unfolding c64_def
    using fl_between [of "2.99792458 * 10 ^ 8" "2.99792458 * 10 ^ 8" "2.99792458 * 10 ^ 8"
        "299 * 10 ^ 6" "3 * 10 ^ 8"] small
    by auto
  obtain ll where ll: "wavelength64 = Finite ll" "149 / 10 ^ 7 \<le> ll" "ll \<le> 151 / 10 ^ 7"
    unfolding wavelength64_def
    using fl_between [of "15 / 10 ^ 6" "15 / 10 ^ 6" "15 / 10 ^ 6"
        "149 / 10 ^ 7" "151 / 10 ^ 7"] small
    by auto
  have llpos: "0 < ll" using ll(2) by simp
  have q: "299 * 10 ^ 6 / (151 / 10 ^ 7) \<le> cc / ll" "cc / ll \<le> 3 * 10 ^ 8 / (149 / 10 ^ 7)"
    by (rule frac_le; use cc ll llpos in simp)+
  obtain ff where ff: "frequency64 = Finite ff" "19 * 10 ^ 12 \<le> ff" "ff \<le> 21 * 10 ^ 12"
    unfolding frequency64_def cc(1) ll(1)
    using fl_between [of "299 * 10 ^ 6 / (151 / 10 ^ 7)" "cc / ll" "3 * 10 ^ 8 / (149 / 10 ^ 7)"
        "19 * 10 ^ 12" "21 * 10 ^ 12"] small q llpos
    by auto
  have hpos: "0 \<le> hh" "0 \<le> ff" using hh(2) ff(2) by simp_all
  have p: "66 / 10 ^ 35 * (19 * 10 ^ 12) \<le> hh * ff" "hh * ff \<le> 67 / 10 ^ 35 * (21 * 10 ^ 12)"
    by (rule mult_mono; use hh ff hpos in simp)+
  obtain ee where ee: "energy_transition64 = Finite ee" "125 / 10 ^ 22 \<le> ee" "ee \<le> 141 / 10 ^ 22"
    unfolding energy_transition64_def hh(1) ff(1)
    using fl_between [of "66 / 10 ^ 35 * (19 * 10 ^ 12)" "hh * ff" "67 / 10 ^ 35 * (21 * 10 ^ 12)"
        "125 / 10 ^ 22" "141 / 10 ^ 22"] small p
    by auto
  from ee kk show ?thesis by (auto simp: E_upper64_def)
qed

lemma scale_bounds:
  fixes q y r :: real
  assumes "0 \<le> q" "q / (1 + 1 / 2 ^ 53) \<le> y" "y \<le> q / (1 - 1 / 2 ^ 53)"
    and "y * (1 - 1 / 2 ^ 53) \<le> r" "r \<le> y * (1 + 1 / 2 ^ 53)"
  shows "q * (1 - 3 / 2 ^ 53) \<le> r" "r \<le> q * (1 + 3 / 2 ^ 53)"
proof -
  have "y * (1 + 1 / 2 ^ 53) \<le> q / (1 - 1 / 2 ^ 53) * (1 + 1 / 2 ^ 53)"
    using assms(3) by (intro mult_right_mono) simp_all
  also have "\<dots> = q * ((1 + 1 / 2 ^ 53) / (1 - 1 / 2 ^ 53))" by simp
  also have "\<dots> \<le> q * (1 + 3 / 2 ^ 53)" using assms(1) by (intro mult_left_mono) simp_all
  finally show "r \<le> q * (1 + 3 / 2 ^ 53)" using assms(5) by linarith
  have "q * (1 - 3 / 2 ^ 53) \<le> q * ((1 - 1 / 2 ^ 53) / (1 + 1 / 2 ^ 53))"
    using assms(1) by (intro mult_left_mono) simp_all
  also have "\<dots> = q / (1 + 1 / 2 ^ 53) * (1 - 1 / 2 ^ 53)" by simp
  also have "\<dots> \<le> y * (1 - 1 / 2 ^ 53)" using assms(2) by (intro mult_right_mono) simp_all
  finally show "q * (1 - 3 / 2 ^ 53) \<le> r" using assms(4) by linarith
qed

lemma boltzmann_factor64_normal:
  assumes "0 < e" "0 < k" "0 < t"
    and "pow2 (- 1022) \<le> k * t" "k * t \<le> pow2 1023"
    and "1 / 2 ^ 40 \<le> e / (k * t)" "e / (k * t) \<le> 600"
  shows "\<exists>r. boltzmann_factor64 (Finite e) (Finite k) (Finite t) = Finite (round64 (exp (- r))) \<and>
     e / (k * t) * (1 - 3 / 2 ^ 53) \<le> r \<and> r \<le> e / (k * t) * (1 + 3 / 2 ^ 53)"
proof -
  define x where "x = k * t"
  define m where "m = round64 x"
  define q where "q = e / x"
  define y where "y = e / m"
  define r where "r = round64 y"
  have x: "0 < x" using assms by (simp add: x_def)
  have q: "1 / 2 ^ 40 \<le> q" "q \<le> 600" using assms(6,7) by (simp_all add: q_def x_def)
  have q0: "0 \<le> q" using q(1) by simp
  have fx: "fl x = Finite m"
    unfolding m_def using assms(5) x by (intro fl_finite) (simp add: x_def)
  note rb = round64_bounds [OF assms(4)]
  have b: "x * (1 - 1 / 2 ^ 53) \<le> m" "m \<le> x * (1 + 1 / 2 ^ 53)"
    unfolding m_def x_def by (rule rb)+
  have lo: "0 < x * (1 - 1 / 2 ^ 53)" using x by simp
  with b(1) have m: "0 < m" by linarith
  have "e / m \<le> e / (x * (1 - 1 / 2 ^ 53))"
    using assms(1) lo b(1) by (intro divide_left_mono) simp_all
  also have "\<dots> = q / (1 - 1 / 2 ^ 53)" by (simp add: q_def)
  finally have y_hi: "y \<le> q / (1 - 1 / 2 ^ 53)" by (simp add: y_def)
  have "q / (1 + 1 / 2 ^ 53) = e / (x * (1 + 1 / 2 ^ 53))" by (simp add: q_def)
  also have "\<dots> \<le> e / m"
    using assms(1) m b(2) by (intro divide_left_mono) simp_all
  finally have y_lo: "q / (1 + 1 / 2 ^ 53) \<le> y" by (simp add: y_def)
  have "1 / 2 ^ 41 \<le> (1 / 2 ^ 40) / (1 + 1 / 2 ^ 53 :: real)" by simp
  also have "\<dots> \<le> q / (1 + 1 / 2 ^ 53)" using q(1) by (intro divide_right_mono) simp_all
  finally have y41: "1 / 2 ^ 41 \<le> y" using y_lo by linarith
  have "q / (1 - 1 / 2 ^ 53) \<le> 600 / (1 - 1 / 2 ^ 53)"
    using q(2) by (intro divide_right_mono) simp_all
  also have "\<dots> \<le> (601 :: real)" by simp
  finally have y601: "y \<le> 601" using y_hi by linarith
  have "pow2 (- 1022) \<le> pow2 (- 41)" by (rule pow2_mono) simp
  also have "\<dots> = 1 / 2 ^ 41" by (simp add: pow2_numeral)
  finally have ynorm: "pow2 (- 1022) \<le> y" using y41 by linarith
  have "(601 :: real) \<le> pow2 10" by (simp add: pow2_numeral)
  also have "\<dots> \<le> pow2 1023" by (rule pow2_mono) simp
  finally have ytop: "\<bar>- y\<bar> \<le> pow2 1023" using y601 y41 by simp
  note yb = round64_bounds [OF ynorm]
  have rb2: "y * (1 - 1 / 2 ^ 53) \<le> r" "r \<le> y * (1 + 1 / 2 ^ 53)"
    unfolding r_def by (rule yb)+
  note sb = scale_bounds [OF q0 y_lo y_hi rb2]
  have "0 \<le> y" using y41 by simp
  then have r0: "0 \<le> r" unfolding r_def by (rule round64_nonneg)
  have "fl (- y) = Finite (round64 (- y))" using ytop by (rule fl_finite)
  then have fy: "fl (- e / m) = Finite (- r)" by (simp add: r_def y_def round64_minus)
  have "fl (exp (- r)) = Finite (round64 (exp (- r)))"
    using r0 fl_unit [of "exp (- r)"] by simp
  then have "boltzmann_factor64 (Finite e) (Finite k) (Finite t) = Finite (round64 (exp (- r)))"
    using fx m fy by (simp add: boltzmann_factor64_def x_def)
  with sb show ?thesis unfolding q_def x_def by blast
qed

lemma exp_ge_pow2:
  assumes "r \<le> 601"
  shows "pow2 (- 1022) \<le> exp (- r)"
proof -
  have "exp (601 :: real) = exp (of_nat 601 * 1)" by simp
  also have "\<dots> = exp 1 ^ 601" by (rule exp_of_nat_mult)
  also have "\<dots> \<le> (3 :: real) ^ 601" using exp_le by (intro power_mono) simp_all
  also have "\<dots> \<le> 2 ^ 1022" by simp
  also have "\<dots> = pow2 1022" using pow2_nat [of 1022] by simp
  finally have "1 / pow2 1022 \<le> 1 / exp (601 :: real)"
    by (intro divide_left_mono) simp_all
  moreover have "exp (- 601 :: real) \<le> exp (- r)" using assms by simp
  moreover have "exp (- 601 :: real) = 1 / exp 601" by (simp add: exp_minus inverse_eq_divide)
  ultimately show ?thesis by (simp add: pow2_minus)
qed

lemma exp_below_one:
  fixes r :: real
  assumes "1 / 2 ^ 41 \<le> r"
  shows "exp (- r) \<le> 1 - 1 / 2 ^ 42"
proof -
  have "1 + 1 / 2 ^ 41 \<le> exp (1 / 2 ^ 41 :: real)" by (rule exp_ge_add_one_self)
  then have "1 / exp (1 / 2 ^ 41 :: real) \<le> 1 / (1 + 1 / 2 ^ 41)"
    by (intro divide_left_mono) simp_all
  also have "\<dots> \<le> 1 - 1 / 2 ^ 42" by simp
  finally have "exp (- (1 / 2 ^ 41) :: real) \<le> 1 - 1 / 2 ^ 42"
    by (simp add: exp_minus inverse_eq_divide)
  moreover have "exp (- r) \<le> exp (- (1 / 2 ^ 41))" using assms by simp
  ultimately show ?thesis by linarith
qed

lemma round64_below_one:
  assumes "x \<le> 1 - 1 / 2 ^ 42"
  shows "round64 x < 1"
proof -
  have "round64 (1 - 1 / 2 ^ 42) = 1 - 1 / 2 ^ 42"
    by (rule round64_representable [of _ "2 ^ 53 - 2 ^ 11" "- 53"]) (simp_all add: pow2_numeral)
  moreover have "round64 x \<le> round64 (1 - 1 / 2 ^ 42)" using assms by (rule round64_mono)
  ultimately show ?thesis by simp
qed

lemma round64_strict:
  assumes "pow2 (- 1022) \<le> y1" "y1 * (1 + 3 / 2 ^ 53) \<le> y2"
  shows "round64 y1 < round64 y2"
proof -
  have y1: "0 < y1" using assms(1) pow2_pos [of "- 1022"] by linarith
  have "y1 * 1 \<le> y1 * (1 + 3 / 2 ^ 53)" using y1 by (intro mult_left_mono) simp_all
  with assms have y2: "pow2 (- 1022) \<le> y2" by simp
  note b1 = round64_bounds [OF assms(1)]
  note b2 = round64_bounds [OF y2]
  have "y1 * (1 + 1 / 2 ^ 53) < y1 * ((1 + 3 / 2 ^ 53) * (1 - 1 / 2 ^ 53))"
    using y1 by (intro mult_strict_left_mono) simp_all
  also have "\<dots> = y1 * (1 + 3 / 2 ^ 53) * (1 - 1 / 2 ^ 53)" by simp
  also have "\<dots> \<le> y2 * (1 - 1 / 2 ^ 53)" using assms(2) by (intro mult_right_mono) simp_all
  finally show ?thesis using b1(2) b2(1) by linarith
qed

lemma exp_gap:
  fixes r1 r2 :: real
  assumes "r2 + 3 / 2 ^ 53 \<le> r1"
  shows "exp (- r1) * (1 + 3 / 2 ^ 53) \<le> exp (- r2)"
proof -
  have "1 + 3 / 2 ^ 53 \<le> exp (3 / 2 ^ 53 :: real)" by (rule exp_ge_add_one_self)
  also have "\<dots> \<le> exp (r1 - r2)" using assms by simp
  finally have "exp (- r1) * (1 + 3 / 2 ^ 53) \<le> exp (- r1) * exp (r1 - r2)"
    by (intro mult_left_mono) simp_all
  also have "\<dots> = exp (- r2)" by (simp add: exp_add [symmetric])
  finally show ?thesis .
qed

lemma exponent_gap:
  fixes q1 q2 r1 r2 :: real
  assumes "q1 \<le> 600" "q2 + 1 / 2 ^ 40 \<le> q1" "0 \<le> q2"
    and "q1 * (1 - 3 / 2 ^ 53) \<le> r1" "r2 \<le> q2 * (1 + 3 / 2 ^ 53)"
  shows "r2 + 3 / 2 ^ 53 \<le> r1"
proof -
  have e: "q1 * (1 - 3 / 2 ^ 53) = q1 - 3 * q1 / 2 ^ 53" "q2 * (1 + 3 / 2 ^ 53) = q2 + 3 * q2 / 2 ^ 53"
    by (simp_all add: algebra_simps)
  have "3 * q1 / 2 ^ 53 \<le> 3 * 600 / 2 ^ 53" using assms(1) by simp
  moreover have "3 * q2 / 2 ^ 53 \<le> 3 * 600 / 2 ^ 53" using assms(1,2) by simp
  moreover have "3 * 600 / 2 ^ 53 + 3 * 600 / 2 ^ 53 + 3 / 2 ^ 53 \<le> (1 / 2 ^ 40 :: real)" by simp
  ultimately show ?thesis using assms(2,4,5) unfolding e by linarith
qed

lemma notebook_exponents:
  fixes e k t1 t2 :: real
  assumes "125 / 10 ^ 22 \<le> e" "e \<le> 141 / 10 ^ 22" "138 / 10 ^ 25 \<le> k" "k \<le> 139 / 10 ^ 25"
    and "216 \<le> t1" "t1 \<le> 217" "288 \<le> t2" "t2 \<le> 289"
  shows "1 / 10 ^ 300 \<le> k * t1" "k * t2 \<le> 10 ^ 300" "e / (k * t1) \<le> 600"
    "1 / 2 ^ 40 \<le> e / (k * t2)" "e / (k * t2) + 1 / 2 ^ 40 \<le> e / (k * t1)"
proof -
  have lo1: "138 / 10 ^ 25 * 216 \<le> k * t1" using assms by (intro mult_mono) simp_all
  have hi1: "k * t1 \<le> 139 / 10 ^ 25 * 217" using assms by (intro mult_mono) simp_all
  have lo2: "138 / 10 ^ 25 * 288 \<le> k * t2" using assms by (intro mult_mono) simp_all
  have hi2: "k * t2 \<le> 139 / 10 ^ 25 * 289" using assms by (intro mult_mono) simp_all
  have p1: "0 < k * t1" using lo1 by simp
  have p2: "0 < k * t2" using lo2 by simp
  show "1 / 10 ^ 300 \<le> k * t1" using lo1 by simp
  show "k * t2 \<le> 10 ^ 300" using hi2 by simp
  have "e / (k * t1) \<le> (141 / 10 ^ 22) / (138 / 10 ^ 25 * 216)"
    using assms lo1 by (intro frac_le) simp_all
  also have "\<dots> \<le> (5 :: real)" by simp
  finally have u1: "e / (k * t1) \<le> 5" .
  then show "e / (k * t1) \<le> 600" by linarith
  have "(3 :: real) \<le> (125 / 10 ^ 22) / (139 / 10 ^ 25 * 289)" by simp
  also have "\<dots> \<le> e / (k * t2)" using assms hi2 p2 by (intro frac_le) simp_all
  finally have l2: "3 \<le> e / (k * t2)" .
  have "(1 / 2 ^ 40 :: real) \<le> 3" by simp
  with l2 show "1 / 2 ^ 40 \<le> e / (k * t2)" by linarith
  have "e / (k * t2) \<le> (141 / 10 ^ 22) / (138 / 10 ^ 25 * 288)"
    using assms lo2 by (intro frac_le) simp_all
  also have "\<dots> \<le> (36 / 10 :: real)" by simp
  finally have u2: "e / (k * t2) \<le> 36 / 10" .
  have "(4 :: real) \<le> (125 / 10 ^ 22) / (139 / 10 ^ 25 * 217)" by simp
  also have "\<dots> \<le> e / (k * t1)" using assms hi1 p1 by (intro frac_le) simp_all
  finally have l1: "4 \<le> e / (k * t1)" .
  have "(36 / 10 :: real) + 1 / 2 ^ 40 \<le> 4" by simp
  with u2 l1 show "e / (k * t2) + 1 / 2 ^ 40 \<le> e / (k * t1)" by linarith
qed

subsection \<open>The de-excitation probabilities for the rates 1.0 and 0.3\<close>

lemma collisional_03: "fl (3 / 10) = Finite (5404319552844595 / 2 ^ 54)"
  using fl_eval [of "- 2" "3 / 10" 5404319552844595] by (simp add: pow2_numeral)

lemma total_13:
  "total_deexcitation_rate64 (Finite (5404319552844595 / 2 ^ 54)) (Finite 1)
     = Finite (5854679515581645 / 2 ^ 52)"
  unfolding total_deexcitation_rate64_def add64.simps
  using fl_eval [of 0 "5404319552844595 / 2 ^ 54 + 1" 5854679515581645]
  by (simp add: pow2_numeral)

lemma p_radiative_13:
  "p_radiative64 (Finite 1) (Finite (5854679515581645 / 2 ^ 52))
     = Finite (866076851417403 / 2 ^ 50)"
  unfolding p_radiative64_def
  using fl_eval [of "- 1" "1 / (5854679515581645 / 2 ^ 52)" 6928614811339224]
  by (simp add: pow2_numeral)

lemma p_collisional_13:
  "p_collisional64 (Finite (5404319552844595 / 2 ^ 54)) (Finite (5854679515581645 / 2 ^ 52))
     = Finite (8314337773607069 / 2 ^ 55)"
  unfolding p_collisional64_def
  using fl_eval [of "- 3" "5404319552844595 / 2 ^ 54 / (5854679515581645 / 2 ^ 52)" 8314337773607069]
  by (simp add: pow2_numeral)

lemma sum_13:
  "add64 (Finite (866076851417403 / 2 ^ 50)) (Finite (8314337773607069 / 2 ^ 55))
     = Finite (1 - 1 / 2 ^ 53)"
  unfolding add64.simps
  using fl_eval [of "- 1" "866076851417403 / 2 ^ 50 + 8314337773607069 / 2 ^ 55" 9007199254740991]
  by (simp add: pow2_numeral)

lemma rate_03_double:
  "round64 (5404319552844595 / 2 ^ 54) = 5404319552844595 / 2 ^ 54"
  by (rule round64_representable [of _ 5404319552844595 "- 54"]) (simp_all add: pow2_numeral)

section \<open>The claims about the rounded columns\<close>

text \<open>
  Claim C6, amended. For positive doubles \<open>E_upper\<close>, \<open>k_B\<close> and temperatures, the cell
  \<^verbatim>\<open>Boltzmann_Factor\<close> returns a finite number in the closed interval from 0 to 1, and for
  \<open>T1 \<le> T2\<close> the factor at \<open>T1\<close> is at most the factor at \<open>T2\<close>. Where nothing
  underflows or saturates, that is for \<open>k_B * T\<close> between \<open>1 / 10 ^ 300\<close> and
  \<open>10 ^ 300\<close> and \<open>E_upper / (k_B * T)\<close> between \<open>1 / 2 ^ 40\<close> and 600, the
  factor lies strictly between 0 and 1, and it is strictly smaller at \<open>T1\<close> than at
  \<open>T2\<close> when \<open>E_upper / (k_B * T1)\<close> exceeds \<open>E_upper / (k_B * T2)\<close> by
  \<open>1 / 2 ^ 40\<close> or more.
\<close>

theorem boltzmann_factor64_range:
  assumes "0 < e" "0 < k" "0 < t1" "t1 \<le> t2"
  shows "\<exists>b1 b2. boltzmann_factor64 (Finite e) (Finite k) (Finite t1) = Finite b1 \<and>
     boltzmann_factor64 (Finite e) (Finite k) (Finite t2) = Finite b2 \<and>
     0 \<le> b1 \<and> b1 \<le> b2 \<and> b2 \<le> 1 \<and>
     (1 / 10 ^ 300 \<le> k * t1 \<and> k * t2 \<le> 10 ^ 300 \<and>
      e / (k * t1) \<le> 600 \<and> 1 / 2 ^ 40 \<le> e / (k * t2) \<longrightarrow>
        0 < b1 \<and> b2 < 1 \<and> (e / (k * t2) + 1 / 2 ^ 40 \<le> e / (k * t1) \<longrightarrow> b1 < b2))"
proof -
  from boltzmann_factor64_monotone [OF assms] obtain b1 b2 where
    b: "boltzmann_factor64 (Finite e) (Finite k) (Finite t1) = Finite b1"
      "boltzmann_factor64 (Finite e) (Finite k) (Finite t2) = Finite b2"
      "0 \<le> b1" "b1 \<le> b2" "b2 \<le> 1" by blast
  have t2: "0 < t2" using assms by simp
  have kt: "0 < k * t1" "k * t1 \<le> k * t2" using assms by simp_all
  have qq: "e / (k * t2) \<le> e / (k * t1)"
    using assms(1) kt by (intro divide_left_mono) simp_all
  have strict: "0 < b1 \<and> b2 < 1 \<and> (e / (k * t2) + 1 / 2 ^ 40 \<le> e / (k * t1) \<longrightarrow> b1 < b2)"
    if h: "1 / 10 ^ 300 \<le> k * t1" "k * t2 \<le> 10 ^ 300"
      "e / (k * t1) \<le> 600" "1 / 2 ^ 40 \<le> e / (k * t2)"
  proof -
    have "pow2 (- 1022) \<le> pow2 (- 1000)" by (rule pow2_mono) simp
    also have "\<dots> \<le> 1 / 10 ^ 300" by (simp add: pow2_numeral)
    finally have small: "pow2 (- 1022) \<le> 1 / 10 ^ 300" .
    have "(10 :: real) ^ 300 \<le> pow2 1000" by (simp add: pow2_numeral)
    also have "\<dots> \<le> pow2 1023" by (rule pow2_mono) simp
    finally have large: "(10 :: real) ^ 300 \<le> pow2 1023" .
    have n1: "pow2 (- 1022) \<le> k * t1" "k * t1 \<le> pow2 1023"
      using h(1,2) kt(2) small large by linarith+
    have n2: "pow2 (- 1022) \<le> k * t2" "k * t2 \<le> pow2 1023"
      using h(1,2) kt(2) small large by linarith+
    have q1: "1 / 2 ^ 40 \<le> e / (k * t1)" using h(4) qq by linarith
    have q2: "e / (k * t2) \<le> 600" using h(3) qq by linarith
    from boltzmann_factor64_normal [OF assms(1,2,3) n1 q1 h(3)] b(1) obtain r1 where
      r1: "b1 = round64 (exp (- r1))" "e / (k * t1) * (1 - 3 / 2 ^ 53) \<le> r1"
        "r1 \<le> e / (k * t1) * (1 + 3 / 2 ^ 53)" by auto
    from boltzmann_factor64_normal [OF assms(1,2) t2 n2 h(4) q2] b(2) obtain r2 where
      r2: "b2 = round64 (exp (- r2))" "e / (k * t2) * (1 - 3 / 2 ^ 53) \<le> r2"
        "r2 \<le> e / (k * t2) * (1 + 3 / 2 ^ 53)" by auto
    have "e / (k * t1) * (1 + 3 / 2 ^ 53) \<le> 600 * (1 + 3 / 2 ^ 53)"
      using h(3) by (intro mult_right_mono) simp_all
    also have "\<dots> \<le> (601 :: real)" by simp
    finally have "r1 \<le> 601" using r1(3) by linarith
    then have y1: "pow2 (- 1022) \<le> exp (- r1)" by (rule exp_ge_pow2)
    then have "round64 (pow2 (- 1022)) \<le> round64 (exp (- r1))" by (rule round64_mono)
    moreover have "round64 (pow2 (- 1022)) = pow2 (- 1022)" by (rule round64_pow2) simp
    ultimately have "pow2 (- 1022) \<le> round64 (exp (- r1))" by simp
    then have pos: "0 < b1" using pow2_pos [of "- 1022"] unfolding r1(1) by linarith
    have "(1 / 2 ^ 40) * (1 - 3 / 2 ^ 53) \<le> e / (k * t2) * (1 - 3 / 2 ^ 53)"
      using h(4) by (intro mult_right_mono) simp_all
    moreover have "(1 / 2 ^ 41 :: real) \<le> (1 / 2 ^ 40) * (1 - 3 / 2 ^ 53)" by simp
    ultimately have "1 / 2 ^ 41 \<le> r2" using r2(2) by linarith
    then have "exp (- r2) \<le> 1 - 1 / 2 ^ 42" by (rule exp_below_one)
    then have lt: "b2 < 1" unfolding r2(1) by (rule round64_below_one)
    have "b1 < b2" if sep: "e / (k * t2) + 1 / 2 ^ 40 \<le> e / (k * t1)"
    proof -
      have "0 \<le> e / (k * t2)" using assms(1,2) t2 by simp
      from exponent_gap [OF h(3) sep this r1(2) r2(3)] have "r2 + 3 / 2 ^ 53 \<le> r1" .
      then have "exp (- r1) * (1 + 3 / 2 ^ 53) \<le> exp (- r2)" by (rule exp_gap)
      with y1 show ?thesis unfolding r1(1) r2(1) by (rule round64_strict)
    qed
    with pos lt show ?thesis by blast
  qed
  with b show ?thesis by blast
qed

text \<open>
  The constants of the notebook with its coldest and its warmest temperature, 216.65 K and
  288.15 K: both factors lie strictly between 0 and 1, the colder one strictly below.
\<close>

theorem boltzmann_factor64_range_witness:
  "\<exists>e k t1 t2 b1 b2. E_upper64 = Finite e \<and> k_B64 = Finite k \<and>
     fl 216.65 = Finite t1 \<and> fl 288.15 = Finite t2 \<and>
     0 < e \<and> 0 < k \<and> 0 < t1 \<and> t1 \<le> t2 \<and>
     1 / 10 ^ 300 \<le> k * t1 \<and> k * t2 \<le> 10 ^ 300 \<and>
     e / (k * t1) \<le> 600 \<and> 1 / 2 ^ 40 \<le> e / (k * t2) \<and>
     e / (k * t2) + 1 / 2 ^ 40 \<le> e / (k * t1) \<and>
     boltzmann_factor64 E_upper64 k_B64 (fl 216.65) = Finite b1 \<and>
     boltzmann_factor64 E_upper64 k_B64 (fl 288.15) = Finite b2 \<and>
     0 < b1 \<and> b1 < b2 \<and> b2 < 1"
proof -
  from notebook_constants64 obtain e k where c: "E_upper64 = Finite e" "k_B64 = Finite k"
    "125 / 10 ^ 22 \<le> e" "e \<le> 141 / 10 ^ 22" "138 / 10 ^ 25 \<le> k" "k \<le> 139 / 10 ^ 25"
    by blast
  have small: "pow2 (- 1022) \<le> 1 / 10 ^ 40" "(10::real) ^ 20 \<le> pow2 1023"
    by (simp_all add: pow2_numeral)
  obtain t1 where t1: "fl 216.65 = Finite t1" "216 \<le> t1" "t1 \<le> 217"
    using fl_between [of "216.65" "216.65" "216.65" 216 217] small by auto
  obtain t2 where t2: "fl 288.15 = Finite t2" "288 \<le> t2" "t2 \<le> 289"
    using fl_between [of "288.15" "288.15" "288.15" 288 289] small by auto
  have h: "0 < e" "0 < k" "0 < t1" "t1 \<le> t2" using c(3,5) t1 t2 by simp_all
  note n = notebook_exponents [OF c(3-6) t1(2,3) t2(2,3)]
  from boltzmann_factor64_range [OF h] n obtain b1 b2 where
    "boltzmann_factor64 (Finite e) (Finite k) (Finite t1) = Finite b1"
    "boltzmann_factor64 (Finite e) (Finite k) (Finite t2) = Finite b2"
    "0 < b1" "b1 < b2" "b2 < 1" by blast
  with c(1,2) t1(1) t2(1) h n show ?thesis by (simp only:) blast
qed

text \<open>
  Claim C6 as stated fails at low temperatures: with the constants of the notebook the
  exponent is about \<open>- 959 / T\<close>, and at 1 K as at 0.5 K the exponential underflows to 0.
  The factor is then not in the open interval, and not strictly smaller at the colder
  temperature.
\<close>

theorem boltzmann_factor64_not_strict:
  "boltzmann_factor64 E_upper64 k_B64 (Finite 1) = Finite 0 \<and>
   boltzmann_factor64 E_upper64 k_B64 (Finite (1 / 2)) = Finite 0"
proof -
  from notebook_constants64 obtain e k where c: "E_upper64 = Finite e" "k_B64 = Finite k"
    "125 / 10 ^ 22 \<le> e" "138 / 10 ^ 25 \<le> k" "k \<le> 139 / 10 ^ 25" by blast
  have small: "pow2 (- 1022) \<le> 1 / 10 ^ 40" "(10::real) ^ 20 \<le> pow2 1023"
    by (simp_all add: pow2_numeral)
  have pos: "0 < e" "0 < k" using c(3,4) by simp_all
  have one: "boltzmann_factor64 (Finite e) (Finite k) (Finite 1) = Finite 0"
  proof (rule boltzmann_factor64_underflow [OF pos])
    show "(0::real) < 1" by simp
    show "pow2 (- 1022) \<le> k * 1" using c(4) small(1) by simp
    show "k * 1 \<le> pow2 1023" using c(5) small(2) by simp
    show "850 * (k * 1) \<le> e" using c(3,5) by simp
  qed
  have half: "boltzmann_factor64 (Finite e) (Finite k) (Finite (1 / 2)) = Finite 0"
  proof (rule boltzmann_factor64_underflow [OF pos])
    show "(0::real) < 1 / 2" by simp
    show "pow2 (- 1022) \<le> k * (1 / 2)" using c(4) small(1) by simp
    show "k * (1 / 2) \<le> pow2 1023" using c(5) small(2) by simp
    show "850 * (k * (1 / 2)) \<le> e" using c(3,5) by simp
  qed
  from one half show ?thesis by (simp add: c)
qed

text \<open>
  Claim C7, amended. For positive doubles as radiative rate \<open>a\<close> and collisional rate
  \<open>b\<close>: when the sum of the rates is finite, \<^verbatim>\<open>P_radiative\<close> and \<^verbatim>\<open>P_collisional\<close> are
  finite numbers in the closed interval from 0 to 1, each within \<open>1 / 2 ^ 51\<close> of the exact
  quotient \<open>a / (b + a)\<close> and \<open>b / (b + a)\<close>, and their sum, taken exactly or in
  binary64, is within \<open>1 / 2 ^ 51\<close> of 1; when the sum of the rates overflows, both
  probabilities are 0.
\<close>

theorem deexcitation_probabilities64:
  assumes "0 < a" "0 < b" "round64 a = a" "round64 b = b"
  shows "(total_deexcitation_rate64 (Finite b) (Finite a) = PInf \<and>
      p_radiative64 (Finite a) PInf = Finite 0 \<and> p_collisional64 (Finite b) PInf = Finite 0) \<or>
    (\<exists>s p q r. total_deexcitation_rate64 (Finite b) (Finite a) = Finite s \<and>
      p_radiative64 (Finite a) (Finite s) = Finite p \<and>
      p_collisional64 (Finite b) (Finite s) = Finite q \<and>
      0 \<le> p \<and> p \<le> 1 \<and> 0 \<le> q \<and> q \<le> 1 \<and>
      \<bar>p - a / (b + a)\<bar> \<le> 1 / 2 ^ 51 \<and> \<bar>q - b / (b + a)\<bar> \<le> 1 / 2 ^ 51 \<and>
      \<bar>p + q - 1\<bar> \<le> 1 / 2 ^ 51 \<and>
      add64 (Finite p) (Finite q) = Finite r \<and> \<bar>r - 1\<bar> \<le> 1 / 2 ^ 51)"
proof -
  define s where "s = round64 (b + a)"
  have t: "total_deexcitation_rate64 (Finite b) (Finite a) = fl (b + a)"
    by (simp add: total_deexcitation_rate64_def)
  have ba: "0 \<le> b + a" using assms by simp
  from fl_nonneg [OF ba] show ?thesis
  proof
    assume "fl (b + a) = PInf"
    then show ?thesis by (simp add: t p_radiative64_def p_collisional64_def)
  next
    assume f: "fl (b + a) = Finite (round64 (b + a)) \<and> 0 \<le> round64 (b + a)
        \<and> round64 (b + a) < pow2 1024"
    have as: "a \<le> s" using round64_mono [of a "b + a"] assms by (simp add: s_def)
    have bs: "b \<le> s" using round64_mono [of b "b + a"] assms by (simp add: s_def)
    have s: "0 < s" using as assms by simp
    note qa = quotient_stage [OF assms(1) as]
    note qb = quotient_stage [OF assms(2) bs]
    define p where "p = round64 (a / s)"
    define q where "q = round64 (b / s)"
    define w where "w = (b + a) / s"
    have w: "a / s + b / s = w" by (simp add: w_def add_divide_distrib)
    have "\<bar>s - (b + a)\<bar> \<le> \<bar>b + a\<bar> / 2 ^ 53"
      unfolding s_def using assms(3,4) by (intro round64_sum_relative)
    moreover have "\<bar>b + a\<bar> = b + a" using ba by (rule abs_of_nonneg)
    ultimately have "\<bar>s - (b + a)\<bar> \<le> (b + a) / 2 ^ 53" by simp
    then have "(b + a) * (1 - 1 / 2 ^ 53) \<le> s" "s \<le> (b + a) * (1 + 1 / 2 ^ 53)"
      by (rule rel_error_bounds)+
    then have "(b + a) * (1 - 1 / 2 ^ 53) / s \<le> s / s" "s / s \<le> (b + a) * (1 + 1 / 2 ^ 53) / s"
      using s by (simp_all only: divide_right_mono less_imp_le)
    then have wb: "w * (1 - 1 / 2 ^ 53) \<le> 1" "1 \<le> w * (1 + 1 / 2 ^ 53)"
      using s by (simp_all add: w_def)
    have w0: "0 \<le> w" using ba s by (simp add: w_def)
    have c: "0 \<le> pow2 (- 1075)" "2 * pow2 (- 1075) \<le> 1 / 2 ^ 53"
    proof -
      show "0 \<le> pow2 (- 1075)" by simp
      have "2 * pow2 (- 1075) = pow2 (- 1074)"
        using pow2_add [of 1 "- 1075"] by (simp add: pow2_numeral)
      also have "\<dots> \<le> pow2 (- 53)" by (rule pow2_mono) simp
      also have "\<dots> = 1 / 2 ^ 53" by (simp add: pow2_numeral)
      finally show "2 * pow2 (- 1075) \<le> 1 / 2 ^ 53" .
    qed
    have up: "p + q \<le> w * (1 + 1 / 2 ^ 53) + 2 * pow2 (- 1075)"
    proof -
      have "p + q \<le> (a / s * (1 + 1 / 2 ^ 53) + pow2 (- 1075))
          + (b / s * (1 + 1 / 2 ^ 53) + pow2 (- 1075))"
        unfolding p_def q_def using qa(4) qb(4) by linarith
      also have "\<dots> = (a / s + b / s) * (1 + 1 / 2 ^ 53) + 2 * pow2 (- 1075)"
        by (simp add: algebra_simps)
      finally show ?thesis by (simp only: w)
    qed
    have low: "w * (1 - 1 / 2 ^ 53) - 2 * pow2 (- 1075) \<le> p + q"
    proof -
      have "(a / s * (1 - 1 / 2 ^ 53) - pow2 (- 1075))
          + (b / s * (1 - 1 / 2 ^ 53) - pow2 (- 1075)) \<le> p + q"
        unfolding p_def q_def using qa(5) qb(5) by linarith
      moreover have "(a / s * (1 - 1 / 2 ^ 53) - pow2 (- 1075))
          + (b / s * (1 - 1 / 2 ^ 53) - pow2 (- 1075))
          = (a / s + b / s) * (1 - 1 / 2 ^ 53) - 2 * pow2 (- 1075)"
        by (simp add: algebra_simps)
      ultimately show ?thesis by (simp only: w)
    qed
    have sum: "\<bar>p + q - 1\<bar> \<le> 1 / 2 ^ 51"
      by (rule unit_sum_bound [OF refl c wb w0 up low])
    have pos: "0 < b + a" using assms by simp
    have ta: "0 \<le> a / (b + a)" "a / (b + a) \<le> 1" using assms by simp_all
    have tb: "0 \<le> b / (b + a)" "b / (b + a) \<le> 1" using assms by simp_all
    have fa: "a / s = a / (b + a) * w" using pos s by (simp add: w_def)
    have fb: "b / s = b / (b + a) * w" using pos s by (simp add: w_def)
    have "p \<le> a / s * (1 + 1 / 2 ^ 53) + pow2 (- 1075)"
      "a / s * (1 - 1 / 2 ^ 53) - pow2 (- 1075) \<le> p"
      unfolding p_def by (rule qa(4) qa(5))+
    then have pa: "\<bar>p - a / (b + a)\<bar> \<le> 1 / 2 ^ 51"
      unfolding fa by (rule unit_part_bound [OF refl c wb w0 ta])
    have "q \<le> b / s * (1 + 1 / 2 ^ 53) + pow2 (- 1075)"
      "b / s * (1 - 1 / 2 ^ 53) - pow2 (- 1075) \<le> q"
      unfolding q_def by (rule qb(4) qb(5))+
    then have pb: "\<bar>q - b / (b + a)\<bar> \<le> 1 / 2 ^ 51"
      unfolding fb by (rule unit_part_bound [OF refl c wb w0 tb])
    have r: "\<bar>round64 (p + q) - 1\<bar> \<le> 1 / 2 ^ 51" using sum by (rule round64_near_one)
    have "\<bar>p + q\<bar> \<le> 2" using qa(2,3) qb(2,3) by (simp add: p_def q_def)
    moreover have "2 \<le> pow2 1023" using pow2_mono [of 1 1023] by (simp add: pow2_numeral)
    ultimately have "fl (p + q) = Finite (round64 (p + q))" by (intro fl_finite) linarith
    with f qa(1-3) qb(1-3) sum r pa pb show ?thesis
      by (auto simp: t p_radiative64_def p_collisional64_def s_def p_def q_def)
  qed
qed

text \<open>The radiative rate 1.0 of the notebook and the double nearest to 0.3.\<close>

theorem deexcitation_probabilities64_witness:
  "(0::real) < 1 \<and> (0::real) < 5404319552844595 / 2 ^ 54 \<and> round64 1 = 1 \<and>
   round64 (5404319552844595 / 2 ^ 54) = 5404319552844595 / 2 ^ 54 \<and>
   (\<exists>p q r. p_radiative64 (Finite 1) (Finite (5854679515581645 / 2 ^ 52)) = Finite p \<and>
      p_collisional64 (Finite (5404319552844595 / 2 ^ 54)) (Finite (5854679515581645 / 2 ^ 52))
        = Finite q \<and>
      0 \<le> p \<and> p \<le> 1 \<and> 0 \<le> q \<and> q \<le> 1 \<and> \<bar>p + q - 1\<bar> \<le> 1 / 2 ^ 51 \<and>
      add64 (Finite p) (Finite q) = Finite r \<and> \<bar>r - 1\<bar> \<le> 1 / 2 ^ 51)"
proof -
  have h: "(0::real) < 1" "(0::real) < 5404319552844595 / 2 ^ 54" by simp_all
  from deexcitation_probabilities64 [OF h round64_1 rate_03_double]
  have "\<exists>p q r. p_radiative64 (Finite 1) (Finite (5854679515581645 / 2 ^ 52)) = Finite p \<and>
      p_collisional64 (Finite (5404319552844595 / 2 ^ 54)) (Finite (5854679515581645 / 2 ^ 52))
        = Finite q \<and>
      0 \<le> p \<and> p \<le> 1 \<and> 0 \<le> q \<and> q \<le> 1 \<and> \<bar>p + q - 1\<bar> \<le> 1 / 2 ^ 51 \<and>
      add64 (Finite p) (Finite q) = Finite r \<and> \<bar>r - 1\<bar> \<le> 1 / 2 ^ 51"
    unfolding total_13 by blast
  with h round64_1 rate_03_double show ?thesis by blast
qed

text \<open>
  Claim C7 as stated fails for the radiative rate 1.0 of the notebook and a collisional rate
  of 0.3: the two probabilities are the doubles \<open>866076851417403 / 2 ^ 50\<close> and
  \<open>8314337773607069 / 2 ^ 55\<close>, their exact sum is \<open>1 - 3 / 2 ^ 55\<close>, and their sum in
  binary64 is \<open>1 - 1 / 2 ^ 53\<close>, the double below 1.
\<close>

theorem probabilities64_sum_not_one:
  "fl (3 / 10) = Finite (5404319552844595 / 2 ^ 54) \<and>
   total_deexcitation_rate64 (Finite (5404319552844595 / 2 ^ 54)) (Finite 1)
     = Finite (5854679515581645 / 2 ^ 52) \<and>
   p_radiative64 (Finite 1) (Finite (5854679515581645 / 2 ^ 52))
     = Finite (866076851417403 / 2 ^ 50) \<and>
   p_collisional64 (Finite (5404319552844595 / 2 ^ 54)) (Finite (5854679515581645 / 2 ^ 52))
     = Finite (8314337773607069 / 2 ^ 55) \<and>
   866076851417403 / 2 ^ 50 + 8314337773607069 / 2 ^ 55 = 1 - 3 / (2 ^ 55 :: real) \<and>
   add64 (Finite (866076851417403 / 2 ^ 50)) (Finite (8314337773607069 / 2 ^ 55))
     = Finite (1 - 1 / 2 ^ 53) \<and>
   add64 (Finite (866076851417403 / 2 ^ 50)) (Finite (8314337773607069 / 2 ^ 55)) \<noteq> Finite 1"
proof -
  have e: "866076851417403 / 2 ^ 50 + 8314337773607069 / 2 ^ 55 = 1 - 3 / (2 ^ 55 :: real)"
    by simp
  have n: "add64 (Finite (866076851417403 / 2 ^ 50)) (Finite (8314337773607069 / 2 ^ 55))
      \<noteq> Finite 1"
    unfolding sum_13 by simp
  from collisional_03 total_13 p_radiative_13 p_collisional_13 e sum_13 n
  show ?thesis by blast
qed

end
